theory Spec2Isabelle
  imports Complex_Main "HOL-Library.Sublist" "HOL-Library.AList"
begin

section \<open>Python values\<close>

text \<open>
  The exceptions the modelled code can meet. All of them are subclasses of Python's
  \<open>Exception\<close>, so an \<open>except Exception\<close> clause catches each of them.
  \<open>ServiceError\<close> stands for whatever the environment set-up, the prompt template or
  the remote call raises before a reply is there.
\<close>

datatype py_error =
  TypeError | ValueError | OverflowError | AttributeError | KeyError
  | RuntimeError | JSONDecodeError | FileNotFoundError | ServiceError

text \<open>
  A Python \<open>float\<close>: a finite value or one of the three special values. Finite
  arithmetic is exact here (rounding and overflow of IEEE doubles are not modelled); the
  special values follow IEEE 754, which is what decides whether a clamp catches them.
\<close>

datatype pyfloat = Fin real | PInf | NInf | NaN

fun fadd :: "pyfloat \<Rightarrow> pyfloat \<Rightarrow> pyfloat" where
  "fadd (Fin x) (Fin y) = Fin (x + y)"
| "fadd NaN _ = NaN"
| "fadd _ NaN = NaN"
| "fadd PInf NInf = NaN"
| "fadd NInf PInf = NaN"
| "fadd PInf _ = PInf"
| "fadd _ PInf = PInf"
| "fadd NInf _ = NInf"
| "fadd _ NInf = NInf"

fun fneg :: "pyfloat \<Rightarrow> pyfloat" where
  "fneg (Fin x) = Fin (- x)"
| "fneg PInf = NInf"
| "fneg NInf = PInf"
| "fneg NaN = NaN"

definition fsub :: "pyfloat \<Rightarrow> pyfloat \<Rightarrow> pyfloat" where
  "fsub a b = fadd a (fneg b)"

definition inf_of_sign :: "real \<Rightarrow> pyfloat" where
  "inf_of_sign x = (if x = 0 then NaN else if 0 < x then PInf else NInf)"

fun fmul :: "pyfloat \<Rightarrow> pyfloat \<Rightarrow> pyfloat" where
  "fmul (Fin x) (Fin y) = Fin (x * y)"
| "fmul NaN _ = NaN"
| "fmul _ NaN = NaN"
| "fmul (Fin x) PInf = inf_of_sign x"
| "fmul (Fin x) NInf = inf_of_sign (- x)"
| "fmul PInf (Fin y) = inf_of_sign y"
| "fmul NInf (Fin y) = inf_of_sign (- y)"
| "fmul PInf PInf = PInf"
| "fmul NInf NInf = PInf"
| "fmul PInf NInf = NInf"
| "fmul NInf PInf = NInf"

text \<open>Division of a float by the length of a non-empty list.\<close>

fun fdiv_len :: "pyfloat \<Rightarrow> nat \<Rightarrow> pyfloat" where
  "fdiv_len (Fin x) n = Fin (x / real n)"
| "fdiv_len PInf n = PInf"
| "fdiv_len NInf n = NInf"
| "fdiv_len NaN n = NaN"

text \<open>\<open>a < b\<close> on floats: every comparison with NaN is false.\<close>

fun fless :: "pyfloat \<Rightarrow> pyfloat \<Rightarrow> bool" where
  "fless (Fin x) (Fin y) = (x < y)"
| "fless NaN _ = False"
| "fless _ NaN = False"
| "fless PInf _ = False"
| "fless _ NInf = False"
| "fless _ PInf = True"
| "fless NInf _ = True"

definition fle :: "pyfloat \<Rightarrow> pyfloat \<Rightarrow> bool" where
  "fle a b = (fless a b \<or> (a = b \<and> a \<noteq> NaN))"

text \<open>
  The builtins \<open>min(a, b)\<close> and \<open>max(a, b)\<close>: the first argument is kept unless
  the second is strictly smaller (larger).
\<close>

definition py_min :: "pyfloat \<Rightarrow> pyfloat \<Rightarrow> pyfloat" where
  "py_min a b = (if fless b a then b else a)"

definition py_max :: "pyfloat \<Rightarrow> pyfloat \<Rightarrow> pyfloat" where
  "py_max a b = (if fless a b then b else a)"

text \<open>\<open>sum(xs)\<close> starts from the integer 0 and adds from the left.\<close>

definition py_sum :: "pyfloat list \<Rightarrow> pyfloat" where
  "py_sum xs = foldl fadd (Fin 0) xs"

text \<open>
  What \<open>json.loads\<close> returns. An object is the list of the items of the resulting
  \<open>dict\<close>, so its keys are distinct. Python's parser also yields the non-finite floats
  (\<open>1e999\<close> is read as infinity).
\<close>

datatype json =
  JNull | JBool bool | JInt int | JFloat pyfloat | JStr string
  | JArr "json list" | JObj "(string \<times> json) list"

text \<open>The numeric value of an \<open>int\<close>, \<open>bool\<close> or \<open>float\<close>; no other value compares
  with a number.\<close>

fun num_of :: "json \<Rightarrow> pyfloat option" where
  "num_of (JInt i) = Some (Fin (real_of_int i))"
| "num_of (JBool b) = Some (Fin (if b then 1 else 0))"
| "num_of (JFloat f) = Some f"
| "num_of _ = None"

fun and_then :: "'e + 'a \<Rightarrow> ('a \<Rightarrow> 'e + 'b) \<Rightarrow> 'e + 'b" where
  "and_then (Inl e) f = Inl e"
| "and_then (Inr x) f = f x"

text \<open>The chained comparison \<open>lo <= v <= hi\<close> with integer bounds.\<close>

definition py_between :: "int \<Rightarrow> json \<Rightarrow> int \<Rightarrow> py_error + bool" where
  "py_between lo v hi =
     (case num_of v of
        None \<Rightarrow> Inl TypeError
      | Some x \<Rightarrow> Inr (fle (Fin (real_of_int lo)) x \<and> fle x (Fin (real_of_int hi))))"

text \<open>The comparison \<open>v > bound\<close> with an integer bound.\<close>

definition py_gt :: "json \<Rightarrow> int \<Rightarrow> py_error + bool" where
  "py_gt v bound =
     (case num_of v of
        None \<Rightarrow> Inl TypeError
      | Some x \<Rightarrow> Inr (fless (Fin (real_of_int bound)) x))"

subsection \<open>Strings\<close>

text \<open>
  A Python \<open>str\<close> is modelled by a \<open>string\<close> whose characters are the code points
  below 256. \<open>str.strip()\<close> removes the characters \<open>str.isspace\<close> accepts; in this
  range they are U+0009..U+000D, U+001C..U+0020, U+0085 and U+00A0.
\<close>

definition is_space :: "char \<Rightarrow> bool" where
  "is_space c =
     (let n = (of_char c :: nat)
      in (9 \<le> n \<and> n \<le> 13) \<or> (28 \<le> n \<and> n \<le> 32) \<or> n = 133 \<or> n = 160)"

definition strip :: "string \<Rightarrow> string" where
  "strip s = rev (dropWhile is_space (rev (dropWhile is_space s)))"

section \<open>schema.py\<close>

datatype PageType = Full_Balance_Sheet | Sectional_List | Unknown

record page_key =
  doc_id :: string
  page_id :: int

record PageMetadata = page_key +
  page_type :: PageType
  financial_structure_overview :: string

text \<open>
  A \<open>LedgerRow\<close> is a plain \<open>dict\<close>: the annotations of the \<open>TypedDict\<close> are not
  enforced. The fields hold what the extractor can put there: the identifiers, the
  description and the transaction type are coerced, the four monetary fields are stored
  as the reply gave them (\<open>JNull\<close> is \<open>None\<close>), the confidences are floats.
\<close>

record LedgerRow = page_key +
  row_id :: int
  description :: string
  transaction_type :: string
  pounds :: json
  shillings :: json
  pence :: json
  pence_fraction :: json
  model_conf_description :: pyfloat
  model_conf_transaction_type :: pyfloat
  model_conf_pounds :: pyfloat
  model_conf_shillings :: pyfloat
  model_conf_pence :: pyfloat
  model_conf_pence_fraction :: pyfloat
  rule_based_confidence :: pyfloat
  row_confidence :: pyfloat

section \<open>scorer.py\<close>

definition compute_rule_based_confidence :: "LedgerRow \<Rightarrow> int option \<Rightarrow> py_error + pyfloat" where
  "compute_rule_based_confidence row typical_max_pounds =
     (let score = (1 :: real);
          d = strip (description row);
          score = (if length d = 0 then score - 0.4
                   else if length d < 3 then score - 0.2 else score)
      in and_then
           (if shillings row \<noteq> JNull then py_between 0 (shillings row) 19 else Inr True)
           (\<lambda>shillings_ok.
      let score = (if \<not> shillings_ok then score - 0.2 else score)
      in and_then
           (if pence row \<noteq> JNull then py_between 0 (pence row) 11 else Inr True)
           (\<lambda>pence_ok.
      let score = (if \<not> pence_ok then score - 0.2 else score)
      in and_then
           (case typical_max_pounds of
              None \<Rightarrow> Inr False
            | Some m \<Rightarrow> if pounds row \<noteq> JNull then py_gt (pounds row) (m * 3) else Inr False)
           (\<lambda>pounds_high.
      let score = (if pounds_high then score - 0.2 else score);
          score = (if transaction_type row \<notin> {''Debit'', ''Credit'', ''Unknown''}
                   then score - 0.3 else score);
          score = (if pounds row = JNull \<and> shillings row = JNull \<and> pence row = JNull
                   then score - 0.3 else score)
      in Inr (Fin (if score < 0 then 0 else if 1 < score then 1 else score))))))"

definition model_confs :: "LedgerRow \<Rightarrow> pyfloat list" where
  "model_confs row =
     [model_conf_description row, model_conf_transaction_type row, model_conf_pounds row,
      model_conf_shillings row, model_conf_pence row, model_conf_pence_fraction row]"

definition compute_row_confidence ::
  "LedgerRow \<Rightarrow> pyfloat \<Rightarrow> int option \<Rightarrow> py_error + pyfloat" where
  "compute_row_confidence row rule_weight typical_max_pounds =
     and_then (compute_rule_based_confidence row typical_max_pounds) (\<lambda>rule_conf.
       let confs = model_confs row;
           model_conf_avg = (if length confs > 0 then fdiv_len (py_sum confs) (length confs)
                             else Fin 0);
           rw = py_max (Fin 0) (py_min (Fin 1) rule_weight);
           combined = fadd (fmul rw rule_conf) (fmul (fsub (Fin 1) rw) model_conf_avg)
       in Inr (if fless combined (Fin 0) then Fin 0
               else if fless (Fin 1) combined then Fin 1 else combined))"

text \<open>A monetary field as the schema types it: \<open>Optional[int]\<close>.\<close>

definition of_opt_int :: "int option \<Rightarrow> json" where
  "of_opt_int v = (case v of None \<Rightarrow> JNull | Some i \<Rightarrow> JInt i)"

section \<open>The environment\<close>

text \<open>
  What a remote chat completion comes to once \<open>json.loads\<close> has run: the call (or
  anything before it) raised, the message had no content, the content was not JSON, or
  the content parsed.
\<close>

datatype llm_reply = CallFails | NoContent | Malformed | Parsed json

datatype ocr_reply = OcrFails | OcrNoContent | OcrContent string

text \<open>
  The environment of a run. Three builtins are left open, since no property below
  depends on their text: \<open>str_of\<close> is \<open>str(v)\<close> of a value that is not a \<open>str\<close>,
  \<open>int_of_str\<close> and \<open>float_of_str\<close> are \<open>int(s)\<close> and \<open>float(s)\<close> of a
  \<open>str\<close>, \<open>None\<close> where Python raises \<open>ValueError\<close>. The services answer
  a request; \<open>export_pdf_pages_as_images\<close> (loader.py, a wrapper of the PDF library)
  gives the items of the \<open>dict\<close> from page ids to image paths.
\<close>

record py_env =
  str_of :: "json \<Rightarrow> string"
  int_of_str :: "string \<Rightarrow> int option"
  float_of_str :: "string \<Rightarrow> pyfloat option"
  classify_service :: "string \<Rightarrow> int \<Rightarrow> string \<Rightarrow> llm_reply"
  extract_service :: "PageMetadata \<Rightarrow> string \<Rightarrow> llm_reply"
  export_pdf_pages_as_images :: "string \<Rightarrow> py_error + (int \<times> string) list"
  image_exists :: "string \<Rightarrow> bool"
  ocr_service :: "string \<Rightarrow> ocr_reply"

definition py_str :: "py_env \<Rightarrow> json \<Rightarrow> string" where
  "py_str env v = (case v of JStr s \<Rightarrow> s | _ \<Rightarrow> str_of env v)"

text \<open>\<open>int(v)\<close>: a float is truncated towards zero.\<close>

definition py_int :: "py_env \<Rightarrow> json \<Rightarrow> py_error + int" where
  "py_int env v =
     (case v of
        JInt i \<Rightarrow> Inr i
      | JBool b \<Rightarrow> Inr (if b then 1 else 0)
      | JFloat f \<Rightarrow>
          (case f of
             Fin x \<Rightarrow> Inr (if 0 \<le> x then \<lfloor>x\<rfloor> else \<lceil>x\<rceil>)
           | NaN \<Rightarrow> Inl ValueError
           | _ \<Rightarrow> Inl OverflowError)
      | JStr s \<Rightarrow> (case int_of_str env s of None \<Rightarrow> Inl ValueError | Some i \<Rightarrow> Inr i)
      | _ \<Rightarrow> Inl TypeError)"

text \<open>\<open>float(v)\<close>: an \<open>int\<close> that rounds to \<open>2 ^ 1024\<close> or beyond is too large.\<close>

definition py_float :: "py_env \<Rightarrow> json \<Rightarrow> py_error + pyfloat" where
  "py_float env v =
     (case v of
        JInt i \<Rightarrow> if 2 ^ 1024 - 2 ^ 970 \<le> \<bar>i\<bar> then Inl OverflowError
                  else Inr (Fin (real_of_int i))
      | JBool b \<Rightarrow> Inr (Fin (if b then 1 else 0))
      | JFloat f \<Rightarrow> Inr f
      | JStr s \<Rightarrow> (case float_of_str env s of None \<Rightarrow> Inl ValueError | Some f \<Rightarrow> Inr f)
      | _ \<Rightarrow> Inl TypeError)"

fun py_truthy :: "json \<Rightarrow> bool" where
  "py_truthy JNull = False"
| "py_truthy (JBool b) = b"
| "py_truthy (JInt i) = (i \<noteq> 0)"
| "py_truthy (JFloat f) = (f \<noteq> Fin 0)"
| "py_truthy (JStr s) = (s \<noteq> [])"
| "py_truthy (JArr xs) = (xs \<noteq> [])"
| "py_truthy (JObj kvs) = (kvs \<noteq> [])"

text \<open>\<open>obj.get(k, dflt)\<close>: only a \<open>dict\<close> has the method.\<close>

definition py_get :: "json \<Rightarrow> string \<Rightarrow> json \<Rightarrow> py_error + json" where
  "py_get obj k dflt =
     (case obj of
        JObj kvs \<Rightarrow> Inr (case map_of kvs k of None \<Rightarrow> dflt | Some v \<Rightarrow> v)
      | _ \<Rightarrow> Inl AttributeError)"

text \<open>The elements a \<open>for\<close> loop sees: a \<open>dict\<close> yields its keys, a \<open>str\<close> its
  characters.\<close>

definition py_iter :: "json \<Rightarrow> py_error + json list" where
  "py_iter v =
     (case v of
        JArr xs \<Rightarrow> Inr xs
      | JObj kvs \<Rightarrow> Inr (map (\<lambda>kv. JStr (fst kv)) kvs)
      | JStr s \<Rightarrow> Inr (map (\<lambda>c. JStr [c]) s)
      | _ \<Rightarrow> Inl TypeError)"

text \<open>\<open>str.lower()\<close> on the code points below 256.\<close>

definition lower_char :: "char \<Rightarrow> char" where
  "lower_char c =
     (let n = (of_char c :: nat)
      in if (65 \<le> n \<and> n \<le> 90) \<or> (192 \<le> n \<and> n \<le> 222 \<and> n \<noteq> 215)
         then char_of (n + 32) else c)"

definition lower :: "string \<Rightarrow> string" where
  "lower s = map lower_char s"

section \<open>classifier.py\<close>

text \<open>
  \<open>classify_page_with_llm\<close> in two steps: the request, which gives a reply, and all
  that the function does with the reply.
\<close>

definition classification_of_reply ::
  "py_env \<Rightarrow> string \<Rightarrow> int \<Rightarrow> llm_reply \<Rightarrow> py_error + PageMetadata" where
  "classification_of_reply env doc pid reply =
     (case reply of
        CallFails \<Rightarrow> Inl ServiceError
      | NoContent \<Rightarrow> Inl RuntimeError
      | Malformed \<Rightarrow> Inl JSONDecodeError
      | Parsed data \<Rightarrow>
          and_then (py_get data ''page_type'' (JStr ''Unknown'')) (\<lambda>page_type_raw.
          let ptype =
                (if page_type_raw = JStr ''Full_Balance_Sheet'' then Full_Balance_Sheet
                 else if page_type_raw = JStr ''Sectional_List'' then Sectional_List
                 else Unknown)
          in and_then (py_get data ''financial_structure_overview'' (JStr [])) (\<lambda>overview.
             and_then (py_get data ''doc_id'' (JStr doc)) (\<lambda>doc_raw.
             and_then (py_get data ''page_id'' (JInt pid)) (\<lambda>pid_raw.
             and_then (py_int env pid_raw) (\<lambda>pid'.
               Inr \<lparr>doc_id = py_str env doc_raw, page_id = pid', page_type = ptype,
                    financial_structure_overview = py_str env overview\<rparr>))))))"

definition classify_page_with_llm ::
  "py_env \<Rightarrow> string \<Rightarrow> int \<Rightarrow> string \<Rightarrow> py_error + PageMetadata" where
  "classify_page_with_llm env doc pid page_text =
     classification_of_reply env doc pid (classify_service env doc pid page_text)"

definition classify_page ::
  "py_env \<Rightarrow> string \<Rightarrow> int \<Rightarrow> string \<Rightarrow> py_error + PageMetadata" where
  "classify_page env doc pid page_text =
     (case classify_page_with_llm env doc pid page_text of
        Inr meta \<Rightarrow> Inr meta
      | Inl e \<Rightarrow>
          (let normalized_text = lower page_text
           in if sublist ''total'' normalized_text \<or> sublist ''balance'' normalized_text
              then Inr \<lparr>doc_id = doc, page_id = pid, page_type = Full_Balance_Sheet,
                     financial_structure_overview =
                       ''Fallback: classified as balance/summary page based on presence '' @
                       ''of 'total' or 'balance'.''\<rparr>
              else Inr \<lparr>doc_id = doc, page_id = pid, page_type = Sectional_List,
                     financial_structure_overview =
                       ''Fallback: classified as list page using simple keyword heuristic.''\<rparr>))"

section \<open>extractor.py\<close>

text \<open>The body of the loop over the reply's rows: row \<open>r\<close> at position \<open>i\<close>.\<close>

definition parse_row :: "py_env \<Rightarrow> PageMetadata \<Rightarrow> nat \<Rightarrow> json \<Rightarrow> py_error + LedgerRow" where
  "parse_row env page_meta i r =
     and_then (py_get r ''doc_id'' (JStr (doc_id page_meta))) (\<lambda>doc_raw.
     and_then (py_get r ''page_id'' (JInt (page_id page_meta))) (\<lambda>pid_raw.
     and_then (py_int env pid_raw) (\<lambda>pid.
     and_then (py_get r ''row_id'' (JInt (int i))) (\<lambda>rid_raw.
     and_then (py_int env rid_raw) (\<lambda>rid.
     and_then (py_get r ''description'' (JStr [])) (\<lambda>desc_raw.
     and_then (py_get r ''transaction_type'' (JStr ''Unknown'')) (\<lambda>tx_raw.
     and_then (py_get r ''pounds'' JNull) (\<lambda>po.
     and_then (py_get r ''shillings'' JNull) (\<lambda>sh.
     and_then (py_get r ''pence'' JNull) (\<lambda>pe.
     and_then (py_get r ''pence_fraction'' JNull) (\<lambda>pf.
     and_then (and_then (py_get r ''model_conf_description'' (JFloat (Fin 0))) (py_float env)) (\<lambda>mc_desc.
     and_then (and_then (py_get r ''model_conf_transaction_type'' (JFloat (Fin 0))) (py_float env)) (\<lambda>mc_tx.
     and_then (and_then (py_get r ''model_conf_pounds'' (JFloat (Fin 0))) (py_float env)) (\<lambda>mc_pounds.
     and_then (and_then (py_get r ''model_conf_shillings'' (JFloat (Fin 0))) (py_float env)) (\<lambda>mc_shillings.
     and_then (and_then (py_get r ''model_conf_pence'' (JFloat (Fin 0))) (py_float env)) (\<lambda>mc_pence.
     and_then (and_then (py_get r ''model_conf_pence_fraction'' (JFloat (Fin 0))) (py_float env)) (\<lambda>mc_pf.
       Inr \<lparr>doc_id = py_str env doc_raw, page_id = pid, row_id = rid,
            description = py_str env (if py_truthy desc_raw then desc_raw else JStr []),
            transaction_type =
              (if tx_raw \<in> {JStr ''Debit'', JStr ''Credit'', JStr ''Unknown''}
               then py_str env tx_raw else ''Unknown''),
            pounds = po, shillings = sh, pence = pe, pence_fraction = pf,
            model_conf_description = mc_desc, model_conf_transaction_type = mc_tx,
            model_conf_pounds = mc_pounds, model_conf_shillings = mc_shillings,
            model_conf_pence = mc_pence, model_conf_pence_fraction = mc_pf,
            rule_based_confidence = Fin 0, row_confidence = Fin 0\<rparr>)))))))))))))))))"

fun parse_rows :: "py_env \<Rightarrow> PageMetadata \<Rightarrow> nat \<Rightarrow> json list \<Rightarrow> py_error + LedgerRow list" where
  "parse_rows env page_meta i [] = Inr []"
| "parse_rows env page_meta i (r # rs) =
     and_then (parse_row env page_meta i r) (\<lambda>row.
     and_then (parse_rows env page_meta (Suc i) rs) (\<lambda>rest. Inr (row # rest)))"

text \<open>\<open>extract_page_with_llm\<close>, in the same two steps.\<close>

definition rows_of_reply ::
  "py_env \<Rightarrow> PageMetadata \<Rightarrow> llm_reply \<Rightarrow> py_error + LedgerRow list" where
  "rows_of_reply env page_meta reply =
     (case reply of
        CallFails \<Rightarrow> Inl ServiceError
      | NoContent \<Rightarrow> Inl RuntimeError
      | Malformed \<Rightarrow> Inl JSONDecodeError
      | Parsed data \<Rightarrow>
          and_then (py_get data ''rows'' (JArr [])) (\<lambda>rows_data.
          and_then (py_iter rows_data) (\<lambda>items. parse_rows env page_meta 0 items)))"

definition extract_page_with_llm ::
  "py_env \<Rightarrow> PageMetadata \<Rightarrow> string \<Rightarrow> py_error + LedgerRow list" where
  "extract_page_with_llm env page_meta page_text =
     rows_of_reply env page_meta (extract_service env page_meta page_text)"

definition dummy_row :: "PageMetadata \<Rightarrow> LedgerRow" where
  "dummy_row page_meta =
     \<lparr>doc_id = doc_id page_meta, page_id = page_id page_meta, row_id = 0,
      description =
        (if page_type page_meta = Full_Balance_Sheet
         then ''Dummy balance entry inferred from summary-like page text.''
         else ''Dummy individual transaction inferred from list-like page text.''),
      transaction_type = ''Unknown'',
      pounds = JNull, shillings = JNull, pence = JNull, pence_fraction = JNull,
      model_conf_description = Fin 0.3, model_conf_transaction_type = Fin 0.2,
      model_conf_pounds = Fin 0, model_conf_shillings = Fin 0,
      model_conf_pence = Fin 0, model_conf_pence_fraction = Fin 0,
      rule_based_confidence = Fin 0, row_confidence = Fin 0\<rparr>"

text \<open>The body of the scoring loop, which stands after the \<open>try\<close> statement.\<close>

definition score_row :: "LedgerRow \<Rightarrow> py_error + LedgerRow" where
  "score_row row =
     and_then (compute_rule_based_confidence row None) (\<lambda>rb.
     and_then (compute_row_confidence row (Fin 0.4) None) (\<lambda>combined.
       Inr (row\<lparr>rule_based_confidence := rb, row_confidence := combined\<rparr>)))"

fun score_rows :: "LedgerRow list \<Rightarrow> py_error + LedgerRow list" where
  "score_rows [] = Inr []"
| "score_rows (row # rows) =
     and_then (score_row row) (\<lambda>row'.
     and_then (score_rows rows) (\<lambda>rest. Inr (row' # rest)))"

definition extract_page :: "py_env \<Rightarrow> PageMetadata \<Rightarrow> string \<Rightarrow> py_error + LedgerRow list" where
  "extract_page env page_meta page_text =
     (let rows = (case extract_page_with_llm env page_meta page_text of
                    Inr parsed \<Rightarrow> parsed
                  | Inl e \<Rightarrow> [dummy_row page_meta])
      in score_rows rows)"

section \<open>pipeline.py\<close>

definition process_single_page ::
  "py_env \<Rightarrow> string \<Rightarrow> int \<Rightarrow> string \<Rightarrow> py_error + PageMetadata \<times> LedgerRow list" where
  "process_single_page env doc pid page_text =
     and_then (classify_page env doc pid page_text) (\<lambda>page_meta.
     and_then (extract_page env page_meta page_text) (\<lambda>rows. Inr (page_meta, rows)))"

text \<open>
  The \<open>dict\<close> of pages is the list of its items in iteration order (distinct keys).
  The loop runs over the sorted keys with the two accumulators.
\<close>

fun process_pages ::
  "py_env \<Rightarrow> string \<Rightarrow> (int \<times> string) list \<Rightarrow> int list \<Rightarrow>
   PageMetadata list \<times> LedgerRow list \<Rightarrow> py_error + PageMetadata list \<times> LedgerRow list" where
  "process_pages env doc pages [] acc = Inr acc"
| "process_pages env doc pages (pid # rest) acc =
     (case map_of pages pid of
        None \<Rightarrow> Inl KeyError
      | Some page_text \<Rightarrow>
          and_then (process_single_page env doc pid page_text) (\<lambda>out.
            process_pages env doc pages rest (fst acc @ [fst out], snd acc @ snd out)))"

definition process_document ::
  "py_env \<Rightarrow> string \<Rightarrow> (int \<times> string) list \<Rightarrow>
   py_error + PageMetadata list \<times> LedgerRow list" where
  "process_document env doc pages = process_pages env doc pages (sort (map fst pages)) ([], [])"

section \<open>ocr.py and batch.py\<close>

definition ocr_page_with_gpt :: "py_env \<Rightarrow> string \<Rightarrow> py_error + string" where
  "ocr_page_with_gpt env image_path =
     (if \<not> image_exists env image_path then Inl FileNotFoundError
      else case ocr_service env image_path of
             OcrFails \<Rightarrow> Inl ServiceError
           | OcrNoContent \<Rightarrow> Inl RuntimeError
           | OcrContent content \<Rightarrow> Inr (strip content))"

text \<open>
  The state the cached transcription works on: the text files
  \<open>data/interim/{doc_id}/ocr_text/page_{page_id}.txt\<close>, addressed by document and page,
  and the log of the image paths \<open>ocr_page_with_gpt\<close> was called with, oldest first.
  A file reads back as the text written to it (the newline translation of text mode is
  left out), and the file operations themselves do not fail.
\<close>

record world =
  ocr_cache :: "string \<times> int \<Rightarrow> string option"
  ocr_calls :: "string list"

fun ocr_pages_loop ::
  "py_env \<Rightarrow> string \<Rightarrow> (int \<times> string) list \<Rightarrow> (int \<times> string) list \<Rightarrow> world \<Rightarrow>
   (py_error + (int \<times> string) list) \<times> world" where
  "ocr_pages_loop env doc [] pages_text w = (Inr pages_text, w)"
| "ocr_pages_loop env doc (item # rest) pages_text w =
     (case ocr_cache w (doc, fst item) of
        Some cached \<Rightarrow>
          ocr_pages_loop env doc rest (AList.update (fst item) cached pages_text) w
      | None \<Rightarrow>
          (let w1 = w\<lparr>ocr_calls := ocr_calls w @ [snd item]\<rparr>
           in case ocr_page_with_gpt env (snd item) of
                Inl e \<Rightarrow> (Inl e, w1)
              | Inr page_text \<Rightarrow>
                  ocr_pages_loop env doc rest (AList.update (fst item) page_text pages_text)
                    (w1\<lparr>ocr_cache := (ocr_cache w1)((doc, fst item) \<mapsto> page_text)\<rparr>)))"

text \<open>
  The keys of a \<open>dict\<close> are distinct, so sorting its items, as the source does, is
  sorting them by key.
\<close>

definition ocr_pdf_to_pages_cached ::
  "py_env \<Rightarrow> string \<Rightarrow> world \<Rightarrow> (py_error + (int \<times> string) list) \<times> world" where
  "ocr_pdf_to_pages_cached env doc w =
     (case export_pdf_pages_as_images env doc of
        Inl e \<Rightarrow> (Inl e, w)
      | Inr page_images \<Rightarrow> ocr_pages_loop env doc (sort_key fst page_images) [] w)"

section \<open>The loop body on a \<open>dict\<close>, in two steps\<close>

text \<open>
  For the proofs about a reply's row that is a \<open>dict\<close>, the body of the loop is
  restated in two steps over the lookup function of the \<open>dict\<close>: the coercions that can
  raise, in the order of the source, then the construction of the row. Lemma
  \<open>parse_row_obj\<close> below shows that \<open>parse_row\<close> is their composition.
\<close>

definition dict_get :: "(string \<Rightarrow> json option) \<Rightarrow> string \<Rightarrow> json \<Rightarrow> json" where
  "dict_get f k dflt = (case f k of None \<Rightarrow> dflt | Some v \<Rightarrow> v)"

type_synonym row_numbers =
  "int \<times> int \<times> pyfloat \<times> pyfloat \<times> pyfloat \<times> pyfloat \<times> pyfloat \<times> pyfloat"

definition row_numbers ::
  "py_env \<Rightarrow> PageMetadata \<Rightarrow> nat \<Rightarrow> (string \<Rightarrow> json option) \<Rightarrow> py_error + row_numbers" where
  "row_numbers env page_meta i f =
     and_then (py_int env (dict_get f ''page_id'' (JInt (page_id page_meta)))) (\<lambda>pid.
     and_then (py_int env (dict_get f ''row_id'' (JInt (int i)))) (\<lambda>rid.
     and_then (py_float env (dict_get f ''model_conf_description'' (JFloat (Fin 0)))) (\<lambda>c1.
     and_then (py_float env (dict_get f ''model_conf_transaction_type'' (JFloat (Fin 0)))) (\<lambda>c2.
     and_then (py_float env (dict_get f ''model_conf_pounds'' (JFloat (Fin 0)))) (\<lambda>c3.
     and_then (py_float env (dict_get f ''model_conf_shillings'' (JFloat (Fin 0)))) (\<lambda>c4.
     and_then (py_float env (dict_get f ''model_conf_pence'' (JFloat (Fin 0)))) (\<lambda>c5.
     and_then (py_float env (dict_get f ''model_conf_pence_fraction'' (JFloat (Fin 0)))) (\<lambda>c6.
       Inr (pid, rid, c1, c2, c3, c4, c5, c6)))))))))"

definition row_of_numbers ::
  "py_env \<Rightarrow> PageMetadata \<Rightarrow> (string \<Rightarrow> json option) \<Rightarrow> row_numbers \<Rightarrow> LedgerRow" where
  "row_of_numbers env page_meta f n =
     (case n of (pid, rid, c1, c2, c3, c4, c5, c6) \<Rightarrow>
       \<lparr>doc_id = py_str env (dict_get f ''doc_id'' (JStr (doc_id page_meta))),
        page_id = pid, row_id = rid,
        description =
          py_str env (if py_truthy (dict_get f ''description'' (JStr []))
                      then dict_get f ''description'' (JStr []) else JStr []),
        transaction_type =
          (if dict_get f ''transaction_type'' (JStr ''Unknown'')
                \<in> {JStr ''Debit'', JStr ''Credit'', JStr ''Unknown''}
           then py_str env (dict_get f ''transaction_type'' (JStr ''Unknown''))
           else ''Unknown''),
        pounds = dict_get f ''pounds'' JNull, shillings = dict_get f ''shillings'' JNull,
        pence = dict_get f ''pence'' JNull, pence_fraction = dict_get f ''pence_fraction'' JNull,
        model_conf_description = c1, model_conf_transaction_type = c2,
        model_conf_pounds = c3, model_conf_shillings = c4,
        model_conf_pence = c5, model_conf_pence_fraction = c6,
        rule_based_confidence = Fin 0, row_confidence = Fin 0\<rparr>)"

text \<open>A value the range checks of the scorer accept: \<open>None\<close> or a number.\<close>

definition numeric_or_null :: "json \<Rightarrow> bool" where
  "numeric_or_null v = (v = JNull \<or> num_of v \<noteq> None)"

section \<open>Sample inputs\<close>

definition sample_meta :: PageMetadata where
  "sample_meta =
     \<lparr>doc_id = ''1704'', page_id = 1, page_type = Sectional_List,
      financial_structure_overview = ''''\<rparr>"

definition sample_row :: LedgerRow where
  "sample_row =
     \<lparr>doc_id = ''1704'', page_id = 1, row_id = 0,
      description = ''To cash paid'', transaction_type = ''Debit'',
      pounds = JInt 12, shillings = JInt 7, pence = JInt 6, pence_fraction = JNull,
      model_conf_description = Fin 0.9, model_conf_transaction_type = Fin 0.8,
      model_conf_pounds = Fin 0.9, model_conf_shillings = Fin 0.9,
      model_conf_pence = Fin 0.9, model_conf_pence_fraction = Fin 0.6,
      rule_based_confidence = Fin 0, row_confidence = Fin 0\<rparr>"


text \<open>
  An environment whose two chat services give one fixed reply. Its builtins are stubs:
  the sample replies below hold no value that reaches \<open>str\<close>, \<open>int\<close> or \<open>float\<close>
  of a string.
\<close>

definition stub_env :: "llm_reply \<Rightarrow> py_env" where
  "stub_env reply =
     \<lparr>str_of = (\<lambda>v. []), int_of_str = (\<lambda>s. None), float_of_str = (\<lambda>s. None),
      classify_service = (\<lambda>doc pid page_text. reply),
      extract_service = (\<lambda>page_meta page_text. reply),
      export_pdf_pages_as_images = (\<lambda>doc. Inr []),
      image_exists = (\<lambda>image_path. True),
      ocr_service = (\<lambda>image_path. OcrFails)\<rparr>"

text \<open>Sample replies of the extraction service.\<close>

definition reply_no_rows :: llm_reply where
  "reply_no_rows = Parsed (JObj [(''rows'', JArr [])])"

definition reply_one_row :: llm_reply where
  "reply_one_row =
     Parsed (JObj [(''rows'', JArr [JObj
       [(''doc_id'', JStr ''1712''), (''page_id'', JInt 7),
        (''description'', JStr ''Rent of the glebe''), (''transaction_type'', JStr ''Income''),
        (''pounds'', JInt 3), (''shillings'', JInt 25),
        (''model_conf_description'', JFloat (Fin 0.9)), (''model_conf_pounds'', JInt 1)]])])"

definition reply_text_shillings :: llm_reply where
  "reply_text_shillings = Parsed (JObj [(''rows'', JArr [JObj [(''shillings'', JStr ''5'')]])])"

definition reply_infinite_confs :: llm_reply where
  "reply_infinite_confs =
     Parsed (JObj [(''rows'', JArr [JObj
       [(''model_conf_description'', JFloat PInf), (''model_conf_pounds'', JFloat NInf)]])])"

text \<open>A sample reply of the classification service.\<close>

definition reply_other_ids :: llm_reply where
  "reply_other_ids =
     Parsed (JObj
       [(''doc_id'', JStr ''1712''), (''page_id'', JInt 7), (''page_type'', JStr ''Ledger_Index''),
        (''financial_structure_overview'', JStr ''Two columns of names and sums'')])"

text \<open>A sample document of two pages, the second of which has its cache entry.\<close>

definition ocr_env :: py_env where
  "ocr_env =
     (stub_env CallFails)
       \<lparr>export_pdf_pages_as_images := (\<lambda>doc. Inr [(2, ''page_2.png''), (1, ''page_1.png'')]),
        ocr_service := (\<lambda>image_path. OcrContent ('' Text of '' @ image_path))\<rparr>"

definition sample_world :: world where
  "sample_world =
     \<lparr>ocr_cache = Map.empty((''1704'', 2) \<mapsto> ''Cached text of page 2''), ocr_calls = []\<rparr>"

section \<open>Properties of the scorer\<close>

lemma fle_Fin [simp]: "fle (Fin x) (Fin y) = (x \<le> y)"
  by (auto simp: fle_def)

lemma if_pen: "(if c then s - k else s) = s - (if c then k else (0::real))"
  by simp

lemma if_pen2: "(if c then s - k else s - k') = s - (if c then k else (k'::real))"
  by simp

lemma clamp_eq: "(if x < 0 then 0 else if 1 < x then 1 else x) = max 0 (min 1 (x::real))"
  by (simp add: max_def min_def)

lemma clamp_bounds: "0 \<le> max 0 (min 1 (x::real)) \<and> max 0 (min 1 x) \<le> 1"
  by (simp add: max_def min_def)

lemma of_opt_int_null [simp]: "(of_opt_int v = JNull) = (v = None)"
  by (cases v) (simp_all add: of_opt_int_def)

lemma between_opt [simp]: "py_between lo (of_opt_int (Some i)) hi = Inr (lo \<le> i \<and> i \<le> hi)"
  by (simp add: py_between_def of_opt_int_def)

lemma gt_opt [simp]: "py_gt (of_opt_int (Some i)) b = Inr (b < i)"
  by (simp add: py_gt_def of_opt_int_def)

text \<open>The score of a row whose monetary fields are typed as the schema says.\<close>

lemma rule_score_typed:
  "compute_rule_based_confidence
     (row\<lparr>pounds := of_opt_int po, shillings := of_opt_int sh, pence := of_opt_int pe\<rparr>) tmp
   = Inr (Fin (max 0 (min 1 (1
       - (if length (strip (description row)) = 0 then 0.4
          else if length (strip (description row)) < 3 then 0.2 else 0)
       - (case sh of Some s \<Rightarrow> if \<not> (0 \<le> s \<and> s \<le> 19) then 0.2 else 0 | None \<Rightarrow> 0)
       - (case pe of Some p \<Rightarrow> if \<not> (0 \<le> p \<and> p \<le> 11) then 0.2 else 0 | None \<Rightarrow> 0)
       - (case tmp of
            Some m \<Rightarrow> (case po of Some p \<Rightarrow> if m * 3 < p then 0.2 else 0 | None \<Rightarrow> 0)
          | None \<Rightarrow> 0)
       - (if transaction_type row \<notin> {''Debit'', ''Credit'', ''Unknown''} then 0.3 else 0)
       - (if po = None \<and> sh = None \<and> pe = None then 0.3 else 0)))))"
  unfolding compute_rule_based_confidence_def Let_def if_pen if_pen2 clamp_eq
  by (cases sh; cases pe; cases po; cases tmp) (simp_all split del: if_split cong: if_cong)

lemma and_then_Inr_iff: "(and_then m f = Inr v) = (\<exists>x. m = Inr x \<and> f x = Inr v)"
  by (cases m) simp_all

lemma and_then_Inl_iff: "(and_then m f = Inl e) = (m = Inl e \<or> (\<exists>x. m = Inr x \<and> f x = Inl e))"
  by (cases m) simp_all

text \<open>Whatever the row holds, a rule score that is returned is a finite value of [0, 1].\<close>

lemma rule_score_range:
  assumes "compute_rule_based_confidence row tmp = Inr v"
  shows "\<exists>x. v = Fin x \<and> 0 \<le> x \<and> x \<le> 1"
proof -
  from assms obtain s :: real where "v = Fin (max 0 (min 1 s))"
    unfolding compute_rule_based_confidence_def Let_def clamp_eq and_then_Inr_iff
    by blast
  then show ?thesis
    using clamp_bounds [of s] by blast
qed

lemma strip_Nil [simp]: "strip [] = []"
  by (simp add: strip_def)

lemma strip_spaces:
  assumes "\<forall>c \<in> set d. is_space c"
  shows "strip d = []"
proof -
  have a: "dropWhile is_space d = []"
    using assms by simp
  show ?thesis
    unfolding strip_def a by simp
qed

text \<open>The rule score reads five fields of the row and no other.\<close>

lemma rule_score_cong:
  assumes "strip (description r) = strip (description r')"
    and "shillings r = shillings r'" and "pence r = pence r'" and "pounds r = pounds r'"
    and "transaction_type r = transaction_type r'"
  shows "compute_rule_based_confidence r tmp = compute_rule_based_confidence r' tmp"
  unfolding compute_rule_based_confidence_def using assms by (simp only:)

lemma rule_score_description_cong:
  "strip d = strip d' \<Longrightarrow>
   compute_rule_based_confidence (row\<lparr>description := d\<rparr>) tmp =
   compute_rule_based_confidence (row\<lparr>description := d'\<rparr>) tmp"
  by (rule rule_score_cong) simp_all

text \<open>
  C2. The rule score of a row with schema-typed monetary fields is 1 minus the sum of the
  penalties that apply, clamped to [0, 1] at the end: 0.4 for a description that is empty
  (once stripped), otherwise 0.2 for one shorter than 3; 0.2 for shillings present and
  outside 0..19; 0.2 for pence present and outside 0..11; 0.2 for pounds present and
  above three times a given typical maximum; 0.3 for a transaction type other than
  Debit, Credit, Unknown; 0.3 when pounds, shillings and pence are all absent. A row
  with empty description, no monetary field and type Unknown scores 0.3; a row with
  shillings 25 and everything else valid and in range scores 0.8.
\<close>

theorem rule_based_confidence_penalties:
  "compute_rule_based_confidence
     (row\<lparr>pounds := of_opt_int po, shillings := of_opt_int sh, pence := of_opt_int pe\<rparr>) tmp
   = Inr (Fin (max 0 (min 1 (1
       - (if length (strip (description row)) = 0 then 0.4
          else if length (strip (description row)) < 3 then 0.2 else 0)
       - (case sh of Some s \<Rightarrow> if \<not> (0 \<le> s \<and> s \<le> 19) then 0.2 else 0 | None \<Rightarrow> 0)
       - (case pe of Some p \<Rightarrow> if \<not> (0 \<le> p \<and> p \<le> 11) then 0.2 else 0 | None \<Rightarrow> 0)
       - (case tmp of
            Some m \<Rightarrow> (case po of Some p \<Rightarrow> if m * 3 < p then 0.2 else 0 | None \<Rightarrow> 0)
          | None \<Rightarrow> 0)
       - (if transaction_type row \<notin> {''Debit'', ''Credit'', ''Unknown''} then 0.3 else 0)
       - (if po = None \<and> sh = None \<and> pe = None then 0.3 else 0)))))
   \<and> (description row = [] \<and> transaction_type row = ''Unknown'' \<longrightarrow>
        compute_rule_based_confidence
          (row\<lparr>pounds := JNull, shillings := JNull, pence := JNull\<rparr>) tmp = Inr (Fin 0.3))
   \<and> (3 \<le> length (strip (description row))
        \<and> transaction_type row \<in> {''Debit'', ''Credit'', ''Unknown''}
        \<and> (case pe of Some p \<Rightarrow> 0 \<le> p \<and> p \<le> 11 | None \<Rightarrow> True)
        \<and> (case tmp of
              Some m \<Rightarrow> (case po of Some p \<Rightarrow> p \<le> m * 3 | None \<Rightarrow> True)
            | None \<Rightarrow> True) \<longrightarrow>
        compute_rule_based_confidence
          (row\<lparr>pounds := of_opt_int po, shillings := JInt 25, pence := of_opt_int pe\<rparr>) tmp
        = Inr (Fin 0.8))"
proof (intro conjI impI)
  show "compute_rule_based_confidence
     (row\<lparr>pounds := of_opt_int po, shillings := of_opt_int sh, pence := of_opt_int pe\<rparr>) tmp
   = Inr (Fin (max 0 (min 1 (1
       - (if length (strip (description row)) = 0 then 0.4
          else if length (strip (description row)) < 3 then 0.2 else 0)
       - (case sh of Some s \<Rightarrow> if \<not> (0 \<le> s \<and> s \<le> 19) then 0.2 else 0 | None \<Rightarrow> 0)
       - (case pe of Some p \<Rightarrow> if \<not> (0 \<le> p \<and> p \<le> 11) then 0.2 else 0 | None \<Rightarrow> 0)
       - (case tmp of
            Some m \<Rightarrow> (case po of Some p \<Rightarrow> if m * 3 < p then 0.2 else 0 | None \<Rightarrow> 0)
          | None \<Rightarrow> 0)
       - (if transaction_type row \<notin> {''Debit'', ''Credit'', ''Unknown''} then 0.3 else 0)
       - (if po = None \<and> sh = None \<and> pe = None then 0.3 else 0)))))"
    by (rule rule_score_typed)
next
  assume a: "description row = [] \<and> transaction_type row = ''Unknown''"
  have "compute_rule_based_confidence
          (row\<lparr>pounds := of_opt_int None, shillings := of_opt_int None,
               pence := of_opt_int None\<rparr>) tmp = Inr (Fin 0.3)"
    unfolding rule_score_typed using a by (cases tmp) simp_all
  then show "compute_rule_based_confidence
          (row\<lparr>pounds := JNull, shillings := JNull, pence := JNull\<rparr>) tmp = Inr (Fin 0.3)"
    by (simp add: of_opt_int_def)
next
  assume a: "3 \<le> length (strip (description row))
        \<and> transaction_type row \<in> {''Debit'', ''Credit'', ''Unknown''}
        \<and> (case pe of Some p \<Rightarrow> 0 \<le> p \<and> p \<le> 11 | None \<Rightarrow> True)
        \<and> (case tmp of
              Some m \<Rightarrow> (case po of Some p \<Rightarrow> p \<le> m * 3 | None \<Rightarrow> True)
            | None \<Rightarrow> True)"
  have "compute_rule_based_confidence
          (row\<lparr>pounds := of_opt_int po, shillings := of_opt_int (Some 25),
               pence := of_opt_int pe\<rparr>) tmp = Inr (Fin 0.8)"
    unfolding rule_score_typed using a
    by (cases pe; cases po; cases tmp) auto
  then show "compute_rule_based_confidence
          (row\<lparr>pounds := of_opt_int po, shillings := JInt 25, pence := of_opt_int pe\<rparr>) tmp
        = Inr (Fin 0.8)"
    by (simp add: of_opt_int_def)
qed

theorem rule_based_confidence_penalties_witness:
  "compute_rule_based_confidence
     (sample_row\<lparr>pounds := JInt 12, shillings := JInt 25, pence := JNull\<rparr>) (Some 100)
     = Inr (Fin 0.8)
   \<and> compute_rule_based_confidence
     (sample_row\<lparr>description := [], transaction_type := ''Unknown'', pounds := JNull,
        shillings := JNull, pence := JNull\<rparr>) None = Inr (Fin 0.3)
   \<and> compute_rule_based_confidence
     (sample_row\<lparr>description := ''ab'', transaction_type := ''Transfer'',
        pounds := JInt 301, shillings := JInt 20, pence := JInt 12\<rparr>) (Some 100)
     = Inr (Fin 0)"
proof -
  have a: "3 \<le> length (strip (description sample_row))
        \<and> transaction_type sample_row \<in> {''Debit'', ''Credit'', ''Unknown''}
        \<and> (case (None :: int option) of Some p \<Rightarrow> 0 \<le> p \<and> p \<le> 11 | None \<Rightarrow> True)
        \<and> (case Some (100 :: int) of
              Some m \<Rightarrow> (case Some (12 :: int) of Some p \<Rightarrow> p \<le> m * 3 | None \<Rightarrow> True)
            | None \<Rightarrow> True)"
    by (simp add: sample_row_def strip_def is_space_def)
  have b: "description (sample_row\<lparr>description := [], transaction_type := ''Unknown''\<rparr>) = []
        \<and> transaction_type (sample_row\<lparr>description := [], transaction_type := ''Unknown''\<rparr>)
          = ''Unknown''"
    by simp
  note t1 = rule_based_confidence_penalties
    [where row = sample_row and po = "Some 12" and sh = "Some 25" and pe = None
       and tmp = "Some 100", THEN conjunct2, THEN conjunct2,
     THEN mp, OF a]
  note t2 = rule_based_confidence_penalties
    [where row = "sample_row\<lparr>description := [], transaction_type := ''Unknown''\<rparr>"
       and po = None and sh = None and pe = None and tmp = None,
     THEN conjunct2, THEN conjunct1, THEN mp, OF b]
  note t3 = rule_based_confidence_penalties
    [where row = "sample_row\<lparr>description := ''ab'', transaction_type := ''Transfer''\<rparr>"
       and po = "Some 301" and sh = "Some 20" and pe = "Some 12" and tmp = "Some 100",
     THEN conjunct1]
  have c: "strip ''ab'' = ''ab''"
    by (simp add: strip_def is_space_def)
  show ?thesis
    using t1 t2 t3 by (simp add: of_opt_int_def c)
qed

text \<open>
  C9. The description is stripped before its length is looked at: a description made of
  whitespace only is scored exactly as the empty string, so it takes the 0.4 penalty of
  the empty description and not the 0.2 of a short one.
\<close>

theorem whitespace_description_scored_as_empty:
  assumes "\<forall>c \<in> set d. is_space c"
  shows "strip d = []
   \<and> compute_rule_based_confidence (row\<lparr>description := d\<rparr>) tmp =
     compute_rule_based_confidence (row\<lparr>description := []\<rparr>) tmp
   \<and> compute_rule_based_confidence
       (row\<lparr>description := d, transaction_type := ''Credit'', pounds := JInt 1,
            shillings := JInt 2, pence := JInt 3\<rparr>) tmp
     = Inr (Fin (case tmp of Some m \<Rightarrow> if m * 3 < 1 then 0.4 else 0.6 | None \<Rightarrow> 0.6))"
proof (intro conjI)
  show e: "strip d = []"
    using assms by (rule strip_spaces)
  show "compute_rule_based_confidence (row\<lparr>description := d\<rparr>) tmp =
     compute_rule_based_confidence (row\<lparr>description := []\<rparr>) tmp"
    by (rule rule_score_description_cong) (simp add: e)
  have "compute_rule_based_confidence
       (row\<lparr>description := d, transaction_type := ''Credit'', pounds := of_opt_int (Some 1),
            shillings := of_opt_int (Some 2), pence := of_opt_int (Some 3)\<rparr>) tmp
     = Inr (Fin (case tmp of Some m \<Rightarrow> if m * 3 < 1 then 0.4 else 0.6 | None \<Rightarrow> 0.6))"
    using rule_score_typed
      [where row = "row\<lparr>description := d, transaction_type := ''Credit''\<rparr>"
         and po = "Some 1" and sh = "Some 2" and pe = "Some 3" and tmp = tmp]
    by (cases tmp) (simp_all add: e)
  then show "compute_rule_based_confidence
       (row\<lparr>description := d, transaction_type := ''Credit'', pounds := JInt 1,
            shillings := JInt 2, pence := JInt 3\<rparr>) tmp
     = Inr (Fin (case tmp of Some m \<Rightarrow> if m * 3 < 1 then 0.4 else 0.6 | None \<Rightarrow> 0.6))"
    by (simp add: of_opt_int_def)
qed

theorem whitespace_description_scored_as_empty_witness:
  "is_space CHR '' ''
   \<and> strip '' '' = []
   \<and> compute_rule_based_confidence (sample_row\<lparr>description := '' ''\<rparr>) None = Inr (Fin 0.6)
   \<and> compute_rule_based_confidence (sample_row\<lparr>description := []\<rparr>) None = Inr (Fin 0.6)"
proof -
  have h: "\<forall>c \<in> set '' ''. is_space c"
    by (simp add: is_space_def)
  have e: "compute_rule_based_confidence (sample_row\<lparr>description := []\<rparr>) None = Inr (Fin 0.6)"
    using rule_score_typed
      [where row = "sample_row\<lparr>description := []\<rparr>" and po = "Some 12" and sh = "Some 7"
         and pe = "Some 6" and tmp = None]
    by (simp add: of_opt_int_def sample_row_def)
  have h': "is_space CHR '' ''"
    by (simp add: is_space_def)
  show ?thesis
    using h' e whitespace_description_scored_as_empty [OF h, where row = sample_row and tmp = None]
    by simp
qed

section \<open>The blended confidence\<close>

lemma foldl_fadd_Fin: "foldl fadd (Fin a) (map Fin cs) = Fin (a + sum_list cs)"
  by (induction cs arbitrary: a) (simp_all add: add.assoc)

lemma py_sum_Fin: "py_sum (map Fin cs) = Fin (sum_list cs)"
  by (simp add: py_sum_def foldl_fadd_Fin)

lemma py_clamp_Fin: "py_max (Fin 0) (py_min (Fin 1) (Fin w)) = Fin (max 0 (min 1 w))"
  by (simp add: py_max_def py_min_def max_def min_def)

lemma length_model_confs [simp]: "length (model_confs row) = 6"
  by (simp add: model_confs_def)

text \<open>The blend for finite inputs, in real arithmetic.\<close>

lemma row_confidence_finite:
  assumes "model_confs row = map Fin cs"
    and "compute_rule_based_confidence row tmp = Inr (Fin rs)"
  shows "compute_row_confidence row (Fin w) tmp =
     Inr (Fin (max 0 (min 1 (max 0 (min 1 w) * rs + (1 - max 0 (min 1 w)) * (sum_list cs / 6)))))"
proof -
  have len: "length cs = 6"
    using length_model_confs [of row] unfolding assms(1) by simp
  show ?thesis
    unfolding compute_row_confidence_def Let_def assms py_sum_Fin py_clamp_Fin
    by (simp add: len fsub_def clamp_eq)
qed







section \<open>Properties of the extractor\<close>

lemma between_numeric:
  "numeric_or_null v \<Longrightarrow> \<exists>b. (if v \<noteq> JNull then py_between lo v hi else Inr True) = Inr b"
  by (cases "v = JNull") (auto simp: numeric_or_null_def py_between_def)

lemma between_raises:
  "\<not> numeric_or_null v \<Longrightarrow> (if v \<noteq> JNull then py_between lo v hi else Inr True) = Inl TypeError"
  by (cases "v = JNull") (auto simp: numeric_or_null_def py_between_def)

lemma rule_score_total:
  assumes "numeric_or_null (shillings row)" and "numeric_or_null (pence row)"
  shows "\<exists>x. compute_rule_based_confidence row None = Inr (Fin x) \<and> 0 \<le> x \<and> x \<le> 1"
proof -
  obtain bs where bs:
    "(if shillings row \<noteq> JNull then py_between 0 (shillings row) 19 else Inr True) = Inr bs"
    using between_numeric [OF assms(1)] by blast
  obtain bp where bp:
    "(if pence row \<noteq> JNull then py_between 0 (pence row) 11 else Inr True) = Inr bp"
    using between_numeric [OF assms(2)] by blast
  have "\<exists>v. compute_rule_based_confidence row None = Inr v"
    unfolding compute_rule_based_confidence_def Let_def bs bp by simp
  then obtain v where v: "compute_rule_based_confidence row None = Inr v" ..
  from rule_score_range [OF v] v show ?thesis
    by auto
qed

lemma rule_score_raises:
  assumes "\<not> numeric_or_null (shillings row) \<or> \<not> numeric_or_null (pence row)"
  shows "compute_rule_based_confidence row tmp = Inl TypeError"
proof (cases "numeric_or_null (shillings row)")
  case False
  then have "(if shillings row \<noteq> JNull then py_between 0 (shillings row) 19 else Inr True)
      = Inl TypeError"
    by (rule between_raises)
  then show ?thesis
    unfolding compute_rule_based_confidence_def Let_def by simp
next
  case True
  then obtain bs where bs:
    "(if shillings row \<noteq> JNull then py_between 0 (shillings row) 19 else Inr True) = Inr bs"
    using between_numeric by blast
  from True assms have "\<not> numeric_or_null (pence row)"
    by simp
  then have bp: "(if pence row \<noteq> JNull then py_between 0 (pence row) 11 else Inr True)
      = Inl TypeError"
    by (rule between_raises)
  show ?thesis
    unfolding compute_rule_based_confidence_def Let_def bs bp by simp
qed

lemma row_confidence_total:
  "compute_rule_based_confidence row tmp = Inr v \<Longrightarrow> \<exists>c. compute_row_confidence row w tmp = Inr c"
  by (simp add: compute_row_confidence_def Let_def)

lemma score_row_total:
  assumes "numeric_or_null (shillings row)" and "numeric_or_null (pence row)"
  shows "\<exists>row'. score_row row = Inr row'"
proof -
  from rule_score_total [OF assms] obtain x where
    x: "compute_rule_based_confidence row None = Inr (Fin x)"
    by blast
  from row_confidence_total [OF x] obtain c where
    "compute_row_confidence row (Fin 0.4) None = Inr c"
    by blast
  with x show ?thesis
    by (simp add: score_row_def)
qed

lemma score_row_raises:
  "\<not> numeric_or_null (shillings row) \<or> \<not> numeric_or_null (pence row) \<Longrightarrow>
   score_row row = Inl TypeError"
  by (simp add: score_row_def rule_score_raises)

lemma score_rows_total:
  "\<forall>r \<in> set rows. numeric_or_null (shillings r) \<and> numeric_or_null (pence r) \<Longrightarrow>
   \<exists>rows'. score_rows rows = Inr rows' \<and> length rows' = length rows"
proof (induction rows)
  case Nil
  then show ?case by simp
next
  case (Cons r rows)
  then obtain rows' where r': "score_rows rows = Inr rows'" "length rows' = length rows"
    by auto
  from Cons.prems obtain r' where "score_row r = Inr r'"
    using score_row_total [of r] by auto
  with r' show ?case
    by simp
qed

lemma score_rows_length: "score_rows rows = Inr rows' \<Longrightarrow> length rows' = length rows"
  by (induction rows arbitrary: rows') (auto simp: and_then_Inr_iff)

lemma parse_rows_length:
  "parse_rows env page_meta i items = Inr rows \<Longrightarrow> length rows = length items"
  by (induction items arbitrary: i rows) (auto simp: and_then_Inr_iff)

lemma dummy_row_rule_score:
  "compute_rule_based_confidence (dummy_row page_meta) None = Inr (Fin 0.7)"
proof -
  have d: "dummy_row page_meta =
      (dummy_row page_meta)\<lparr>pounds := of_opt_int None, shillings := of_opt_int None,
         pence := of_opt_int None\<rparr>"
    by (simp add: dummy_row_def of_opt_int_def)
  have s1: "strip ''Dummy balance entry inferred from summary-like page text.'' =
      ''Dummy balance entry inferred from summary-like page text.''"
    by (simp add: strip_def is_space_def)
  have s2: "strip ''Dummy individual transaction inferred from list-like page text.'' =
      ''Dummy individual transaction inferred from list-like page text.''"
    by (simp add: strip_def is_space_def)
  have l: "3 \<le> length (strip (description (dummy_row page_meta)))"
    by (simp add: dummy_row_def s1 s2)
  have t: "transaction_type (dummy_row page_meta) = ''Unknown''"
    by (simp add: dummy_row_def)
  from l have l0: "strip (description (dummy_row page_meta)) \<noteq> []"
    by auto
  from l have l3: "\<not> length (strip (description (dummy_row page_meta))) < 3"
    by simp
  show ?thesis
    by (subst d, subst rule_score_typed) (simp add: l0 l3 t)
qed

lemma dummy_row_confs:
  "model_confs (dummy_row page_meta) = map Fin [0.3, 0.2, 0, 0, 0, 0]"
  by (simp add: model_confs_def dummy_row_def)

lemma dummy_row_scored:
  "score_row (dummy_row page_meta) =
   Inr ((dummy_row page_meta)\<lparr>rule_based_confidence := Fin 0.7, row_confidence := Fin 0.33\<rparr>)"
proof -
  have "compute_row_confidence (dummy_row page_meta) (Fin 0.4) None = Inr (Fin 0.33)"
    using row_confidence_finite [OF dummy_row_confs dummy_row_rule_score, of page_meta "0.4"]
    by simp
  then show ?thesis
    by (simp add: score_row_def dummy_row_rule_score)
qed

lemma extract_page_fallback:
  "extract_page_with_llm env page_meta page_text = Inl e \<Longrightarrow>
   extract_page env page_meta page_text =
   Inr [(dummy_row page_meta)\<lparr>rule_based_confidence := Fin 0.7, row_confidence := Fin 0.33\<rparr>]"
  by (simp add: extract_page_def dummy_row_scored)

lemma extract_page_success:
  "extract_page_with_llm env page_meta page_text = Inr rows \<Longrightarrow>
   extract_page env page_meta page_text = score_rows rows"
  by (simp add: extract_page_def)

lemma extract_llm_failed_reply:
  "extract_service env page_meta page_text \<in> {CallFails, NoContent, Malformed} \<Longrightarrow>
   \<exists>e. extract_page_with_llm env page_meta page_text = Inl e"
  by (auto simp: extract_page_with_llm_def rows_of_reply_def)

lemma extract_llm_array:
  "extract_service env page_meta page_text = Parsed (JObj kvs) \<Longrightarrow>
   map_of kvs ''rows'' = Some (JArr items) \<Longrightarrow>
   extract_page_with_llm env page_meta page_text = parse_rows env page_meta 0 items"
  by (simp add: extract_page_with_llm_def rows_of_reply_def py_get_def py_iter_def)

lemma extract_llm_no_rows:
  "extract_service env page_meta page_text = Parsed (JObj kvs) \<Longrightarrow>
   map_of kvs ''rows'' = None \<Longrightarrow>
   extract_page_with_llm env page_meta page_text = Inr []"
  by (simp add: extract_page_with_llm_def rows_of_reply_def py_get_def py_iter_def)

lemma parse_reply_one_row:
  "extract_page_with_llm (stub_env reply_one_row) sample_meta page_text =
   Inr [\<lparr>doc_id = ''1712'', page_id = 7, row_id = 0,
         description = ''Rent of the glebe'', transaction_type = ''Unknown'',
         pounds = JInt 3, shillings = JInt 25, pence = JNull, pence_fraction = JNull,
         model_conf_description = Fin 0.9, model_conf_transaction_type = Fin 0,
         model_conf_pounds = Fin 1, model_conf_shillings = Fin 0,
         model_conf_pence = Fin 0, model_conf_pence_fraction = Fin 0,
         rule_based_confidence = Fin 0, row_confidence = Fin 0\<rparr>]"
  by (simp add: extract_page_with_llm_def rows_of_reply_def reply_one_row_def stub_env_def sample_meta_def
      parse_row_def py_get_def py_iter_def py_int_def py_float_def py_str_def)

lemma parse_reply_text_shillings:
  "extract_page_with_llm (stub_env reply_text_shillings) sample_meta page_text =
   Inr [\<lparr>doc_id = ''1704'', page_id = 1, row_id = 0,
         description = [], transaction_type = ''Unknown'',
         pounds = JNull, shillings = JStr ''5'', pence = JNull, pence_fraction = JNull,
         model_conf_description = Fin 0, model_conf_transaction_type = Fin 0,
         model_conf_pounds = Fin 0, model_conf_shillings = Fin 0,
         model_conf_pence = Fin 0, model_conf_pence_fraction = Fin 0,
         rule_based_confidence = Fin 0, row_confidence = Fin 0\<rparr>]"
  by (simp add: extract_page_with_llm_def rows_of_reply_def reply_text_shillings_def stub_env_def sample_meta_def
      parse_row_def py_get_def py_iter_def py_int_def py_float_def py_str_def)

text \<open>
  The scoring loop stands after the \<open>try\<close> statement: a row whose shillings are a text
  makes \<open>extract_page\<close> raise.
\<close>

lemma extract_page_raises_on_text_shillings:
  "extract_page (stub_env reply_text_shillings) sample_meta page_text = Inl TypeError"
  by (simp add: extract_page_def parse_reply_text_shillings score_row_raises numeric_or_null_def)

text \<open>
  C1 (as amended). When the service path fails, be it by a failed call, a reply without
  content, a reply that is not JSON or a reply that does not coerce, \<open>extract_page\<close>
  returns exactly one row, the scored fallback row. When the service path succeeds,
  \<open>extract_page\<close> returns one scored row per element of the reply's rows, provided the
  shillings and pence of each are absent or numbers; a reply with an empty array of rows,
  or with none, gives the empty list.
\<close>

theorem extract_page_rows:
  "(extract_service env page_meta page_text \<in> {CallFails, NoContent, Malformed} \<longrightarrow>
      (\<exists>e. extract_page_with_llm env page_meta page_text = Inl e))
   \<and> (extract_page_with_llm env page_meta page_text = Inl e \<longrightarrow>
      extract_page env page_meta page_text =
        Inr [(dummy_row page_meta)\<lparr>rule_based_confidence := Fin 0.7,
               row_confidence := Fin 0.33\<rparr>])
   \<and> (extract_page_with_llm env page_meta page_text = Inr rows
        \<and> (\<forall>r \<in> set rows. numeric_or_null (shillings r) \<and> numeric_or_null (pence r)) \<longrightarrow>
      (\<exists>rows'. extract_page env page_meta page_text = Inr rows' \<and> length rows' = length rows))
   \<and> (extract_service env page_meta page_text = Parsed (JObj kvs)
        \<and> map_of kvs ''rows'' = Some (JArr items)
        \<and> extract_page_with_llm env page_meta page_text = Inr rows \<longrightarrow>
      length rows = length items)
   \<and> (extract_service env page_meta page_text = Parsed (JObj kvs)
        \<and> map_of kvs ''rows'' \<in> {None, Some (JArr [])} \<longrightarrow>
      extract_page env page_meta page_text = Inr [])"
proof (intro conjI impI)
  assume "extract_service env page_meta page_text \<in> {CallFails, NoContent, Malformed}"
  then show "\<exists>e. extract_page_with_llm env page_meta page_text = Inl e"
    by (rule extract_llm_failed_reply)
next
  assume "extract_page_with_llm env page_meta page_text = Inl e"
  then show "extract_page env page_meta page_text =
        Inr [(dummy_row page_meta)\<lparr>rule_based_confidence := Fin 0.7,
               row_confidence := Fin 0.33\<rparr>]"
    by (rule extract_page_fallback)
next
  assume a: "extract_page_with_llm env page_meta page_text = Inr rows
        \<and> (\<forall>r \<in> set rows. numeric_or_null (shillings r) \<and> numeric_or_null (pence r))"
  then show "\<exists>rows'. extract_page env page_meta page_text = Inr rows' \<and> length rows' = length rows"
    using score_rows_total [of rows] by (simp add: extract_page_success)
next
  assume a: "extract_service env page_meta page_text = Parsed (JObj kvs)
        \<and> map_of kvs ''rows'' = Some (JArr items)
        \<and> extract_page_with_llm env page_meta page_text = Inr rows"
  then have "parse_rows env page_meta 0 items = Inr rows"
    using extract_llm_array [of env page_meta page_text kvs items] by simp
  then show "length rows = length items"
    by (rule parse_rows_length)
next
  assume a: "extract_service env page_meta page_text = Parsed (JObj kvs)
        \<and> map_of kvs ''rows'' \<in> {None, Some (JArr [])}"
  then have "extract_page_with_llm env page_meta page_text = Inr []"
    using extract_llm_no_rows [of env page_meta page_text kvs]
      extract_llm_array [of env page_meta page_text kvs "[]"] by auto
  then show "extract_page env page_meta page_text = Inr []"
    by (simp add: extract_page_success)
qed

theorem extract_page_rows_witness:
  "extract_page (stub_env CallFails) sample_meta ''Total 3 4 5'' =
     Inr [(dummy_row sample_meta)\<lparr>rule_based_confidence := Fin 0.7, row_confidence := Fin 0.33\<rparr>]
   \<and> (\<exists>rows'. extract_page (stub_env reply_one_row) sample_meta ''Total 3 4 5'' = Inr rows'
        \<and> length rows' = 1)
   \<and> extract_page (stub_env reply_no_rows) sample_meta ''Total 3 4 5'' = Inr []"
proof -
  let ?t = "''Total 3 4 5''"
  have f: "extract_page_with_llm (stub_env CallFails) sample_meta ?t = Inl ServiceError"
    by (simp add: extract_page_with_llm_def rows_of_reply_def stub_env_def)
  note a = extract_page_rows
    [where env = "stub_env CallFails" and page_meta = sample_meta and page_text = ?t
       and e = ServiceError, THEN conjunct2, THEN conjunct1, THEN mp, OF f]
  have s: "extract_page_with_llm (stub_env reply_one_row) sample_meta ?t = Inr
      [\<lparr>doc_id = ''1712'', page_id = 7, row_id = 0,
         description = ''Rent of the glebe'', transaction_type = ''Unknown'',
         pounds = JInt 3, shillings = JInt 25, pence = JNull, pence_fraction = JNull,
         model_conf_description = Fin 0.9, model_conf_transaction_type = Fin 0,
         model_conf_pounds = Fin 1, model_conf_shillings = Fin 0,
         model_conf_pence = Fin 0, model_conf_pence_fraction = Fin 0,
         rule_based_confidence = Fin 0, row_confidence = Fin 0\<rparr>]
      \<and> (\<forall>r \<in> set
      [\<lparr>doc_id = ''1712'', page_id = 7, row_id = 0,
         description = ''Rent of the glebe'', transaction_type = ''Unknown'',
         pounds = JInt 3, shillings = JInt 25, pence = JNull, pence_fraction = JNull,
         model_conf_description = Fin 0.9, model_conf_transaction_type = Fin 0,
         model_conf_pounds = Fin 1, model_conf_shillings = Fin 0,
         model_conf_pence = Fin 0, model_conf_pence_fraction = Fin 0,
         rule_based_confidence = Fin 0, row_confidence = Fin 0\<rparr>].
         numeric_or_null (shillings r) \<and> numeric_or_null (pence r))"
    by (simp add: parse_reply_one_row numeric_or_null_def)
  note b = extract_page_rows
    [where env = "stub_env reply_one_row" and page_meta = sample_meta and page_text = ?t,
     THEN conjunct2, THEN conjunct2, THEN conjunct1, THEN mp, OF s]
  have n: "extract_service (stub_env reply_no_rows) sample_meta ?t
        = Parsed (JObj [(''rows'', JArr [])])
      \<and> map_of [(''rows'', JArr [])] ''rows'' \<in> {None, Some (JArr [])}"
    by (simp add: stub_env_def reply_no_rows_def)
  note c = extract_page_rows
    [where env = "stub_env reply_no_rows" and page_meta = sample_meta and page_text = ?t,
     THEN conjunct2, THEN conjunct2, THEN conjunct2, THEN conjunct2, THEN mp, OF n]
  show ?thesis
    using a b c by simp
qed

text \<open>
  The claim as stated fails on a reply that parses and holds no row: nothing raises, so
  the fallback does not run, and the list returned is empty.
\<close>

theorem extract_page_empty_counterexample:
  "extract_page (stub_env reply_no_rows) sample_meta ''Total 3 4 5'' = Inr []"
  by (simp add: extract_page_def extract_page_with_llm_def rows_of_reply_def reply_no_rows_def stub_env_def
      py_get_def py_iter_def)

section \<open>The confidences of the returned rows\<close>

lemma row_confidence_cong:
  assumes "strip (description r) = strip (description r')"
    and "shillings r = shillings r'" and "pence r = pence r'" and "pounds r = pounds r'"
    and "transaction_type r = transaction_type r'"
    and "model_confs r = model_confs r'"
  shows "compute_row_confidence r w tmp = compute_row_confidence r' w tmp"
  unfolding compute_row_confidence_def
    rule_score_cong [OF assms(1) assms(2) assms(3) assms(4) assms(5)] assms(6)
  by (rule refl)

text \<open>A blend that is returned is NaN or a finite value of [0, 1]: the two comparisons
  of the final clamp are both false on NaN.\<close>

lemma clamp_float_range:
  "(if fless c (Fin 0) then Fin 0 else if fless (Fin 1) c then Fin 1 else c) = NaN
   \<or> (\<exists>y. (if fless c (Fin 0) then Fin 0 else if fless (Fin 1) c then Fin 1 else c) = Fin y
        \<and> 0 \<le> y \<and> y \<le> 1)"
  by (cases c) auto

lemma row_confidence_range:
  assumes "compute_row_confidence row w tmp = Inr c"
  shows "c = NaN \<or> (\<exists>y. c = Fin y \<and> 0 \<le> y \<and> y \<le> 1)"
proof -
  from assms obtain k where
    "c = (if fless k (Fin 0) then Fin 0 else if fless (Fin 1) k then Fin 1 else k)"
    unfolding compute_row_confidence_def Let_def and_then_Inr_iff by blast
  then show ?thesis
    using clamp_float_range [of k] by simp
qed

lemma score_row_fields:
  assumes "score_row r = Inr r'"
  shows "compute_rule_based_confidence r' None = Inr (rule_based_confidence r')
   \<and> compute_row_confidence r' (Fin 0.4) None = Inr (row_confidence r')"
proof -
  from assms obtain rb c where rb: "compute_rule_based_confidence r None = Inr rb"
    and c: "compute_row_confidence r (Fin 0.4) None = Inr c"
    and r': "r' = r\<lparr>rule_based_confidence := rb, row_confidence := c\<rparr>"
    unfolding score_row_def and_then_Inr_iff by auto
  have "compute_rule_based_confidence r' None = compute_rule_based_confidence r None"
    by (rule rule_score_cong) (simp_all add: r')
  moreover have "compute_row_confidence r' (Fin 0.4) None = compute_row_confidence r (Fin 0.4) None"
    by (rule row_confidence_cong) (simp_all add: r' model_confs_def)
  ultimately show ?thesis
    using rb c by (simp add: r')
qed

lemma score_rows_fields:
  "score_rows rows = Inr rows' \<Longrightarrow> r' \<in> set rows' \<Longrightarrow>
   compute_rule_based_confidence r' None = Inr (rule_based_confidence r')
   \<and> compute_row_confidence r' (Fin 0.4) None = Inr (row_confidence r')"
proof (induction rows arbitrary: rows')
  case Nil
  then show ?case by simp
next
  case (Cons r rows)
  from Cons.prems(1) obtain s rest where s: "score_row r = Inr s"
    and rest: "score_rows rows = Inr rest" and rows': "rows' = s # rest"
    by (auto simp: and_then_Inr_iff)
  show ?case
  proof (cases "r' = s")
    case True
    then show ?thesis
      using score_row_fields [OF s] by simp
  next
    case False
    then have "r' \<in> set rest"
      using Cons.prems(2) rows' by simp
    then show ?thesis
      by (rule Cons.IH [OF rest])
  qed
qed

lemma extract_page_scores:
  assumes "extract_page env page_meta page_text = Inr rows" and "r \<in> set rows"
  shows "compute_rule_based_confidence r None = Inr (rule_based_confidence r)
   \<and> compute_row_confidence r (Fin 0.4) None = Inr (row_confidence r)"
  using assms unfolding extract_page_def Let_def by (rule score_rows_fields)

text \<open>
  C4, what holds. Every row \<open>extract_page\<close> returns, on either path, carries the rule
  score and the blend with rule weight 0.4 that the scorer computes for that very row. The
  rule score is a finite value of [0, 1]; the blend is a finite value of [0, 1] unless it
  is NaN, and it is never NaN when the six model confidences of the row are finite.
\<close>

theorem extract_page_rows_scored:
  assumes "extract_page env page_meta page_text = Inr rows" and "r \<in> set rows"
  shows "compute_rule_based_confidence r None = Inr (rule_based_confidence r)
   \<and> compute_row_confidence r (Fin 0.4) None = Inr (row_confidence r)
   \<and> (\<exists>x. rule_based_confidence r = Fin x \<and> 0 \<le> x \<and> x \<le> 1)
   \<and> (row_confidence r = NaN \<or> (\<exists>y. row_confidence r = Fin y \<and> 0 \<le> y \<and> y \<le> 1))
   \<and> ((\<exists>cs. model_confs r = map Fin cs) \<longrightarrow>
        (\<exists>y. row_confidence r = Fin y \<and> 0 \<le> y \<and> y \<le> 1))"
proof -
  note s = extract_page_scores [OF assms]
  from s have rb: "\<exists>x. rule_based_confidence r = Fin x \<and> 0 \<le> x \<and> x \<le> 1"
    using rule_score_range by blast
  from s have rc: "row_confidence r = NaN \<or> (\<exists>y. row_confidence r = Fin y \<and> 0 \<le> y \<and> y \<le> 1)"
    using row_confidence_range by blast
  have fin: "(\<exists>cs. model_confs r = map Fin cs) \<longrightarrow>
        (\<exists>y. row_confidence r = Fin y \<and> 0 \<le> y \<and> y \<le> 1)"
  proof
    assume "\<exists>cs. model_confs r = map Fin cs"
    then obtain cs where cs: "model_confs r = map Fin cs" ..
    from rb s obtain x where x: "compute_rule_based_confidence r None = Inr (Fin x)"
      by auto
    from row_confidence_finite [OF cs x, of "0.4"] s have "row_confidence r \<noteq> NaN"
      by auto
    with rc show "\<exists>y. row_confidence r = Fin y \<and> 0 \<le> y \<and> y \<le> 1"
      by simp
  qed
  from s rb rc fin show ?thesis
    by blast
qed

theorem extract_page_rows_scored_witness:
  "extract_page (stub_env CallFails) sample_meta ''Total 3 4 5'' =
     Inr [(dummy_row sample_meta)\<lparr>rule_based_confidence := Fin 0.7, row_confidence := Fin 0.33\<rparr>]
   \<and> compute_rule_based_confidence
       ((dummy_row sample_meta)\<lparr>rule_based_confidence := Fin 0.7, row_confidence := Fin 0.33\<rparr>)
       None = Inr (Fin 0.7)
   \<and> compute_row_confidence
       ((dummy_row sample_meta)\<lparr>rule_based_confidence := Fin 0.7, row_confidence := Fin 0.33\<rparr>)
       (Fin 0.4) None = Inr (Fin 0.33)"
proof -
  let ?r = "(dummy_row sample_meta)\<lparr>rule_based_confidence := Fin 0.7, row_confidence := Fin 0.33\<rparr>"
  have f: "extract_page_with_llm (stub_env CallFails) sample_meta ''Total 3 4 5''
      = Inl ServiceError"
    by (simp add: extract_page_with_llm_def rows_of_reply_def stub_env_def)
  have e: "extract_page (stub_env CallFails) sample_meta ''Total 3 4 5'' = Inr [?r]"
    using f by (rule extract_page_fallback)
  have m: "?r \<in> set [?r]"
    by simp
  show ?thesis
    using e extract_page_rows_scored [OF e m] by simp
qed

text \<open>
  C4, what fails. A reply whose row reports the confidences \<open>1e999\<close> and \<open>-1e999\<close>
  parses to plus and minus infinity; their sum is NaN, the final clamp lets NaN through,
  and the row is returned with a \<open>row_confidence\<close> that is no value of [0, 1].
\<close>

theorem extract_page_nan_confidence:
  "extract_page (stub_env reply_infinite_confs) sample_meta ''Total 3 4 5'' =
   Inr [\<lparr>doc_id = ''1704'', page_id = 1, row_id = 0,
         description = [], transaction_type = ''Unknown'',
         pounds = JNull, shillings = JNull, pence = JNull, pence_fraction = JNull,
         model_conf_description = PInf, model_conf_transaction_type = Fin 0,
         model_conf_pounds = NInf, model_conf_shillings = Fin 0,
         model_conf_pence = Fin 0, model_conf_pence_fraction = Fin 0,
         rule_based_confidence = Fin 0.3, row_confidence = NaN\<rparr>]"
proof -
  let ?row = "\<lparr>doc_id = ''1704'', page_id = 1, row_id = 0,
         description = [], transaction_type = ''Unknown'',
         pounds = JNull, shillings = JNull, pence = JNull, pence_fraction = JNull,
         model_conf_description = PInf, model_conf_transaction_type = Fin 0,
         model_conf_pounds = NInf, model_conf_shillings = Fin 0,
         model_conf_pence = Fin 0, model_conf_pence_fraction = Fin 0,
         rule_based_confidence = Fin 0, row_confidence = Fin 0\<rparr>"
  have p: "extract_page_with_llm (stub_env reply_infinite_confs) sample_meta ''Total 3 4 5''
      = Inr [?row]"
    by (simp add: extract_page_with_llm_def rows_of_reply_def reply_infinite_confs_def stub_env_def sample_meta_def
        parse_row_def py_get_def py_iter_def py_int_def py_float_def py_str_def)
  have "compute_rule_based_confidence
      (?row\<lparr>pounds := of_opt_int None, shillings := of_opt_int None, pence := of_opt_int None\<rparr>)
      None = Inr (Fin 0.3)"
    unfolding rule_score_typed by simp
  then have rb: "compute_rule_based_confidence ?row None = Inr (Fin 0.3)"
    by (simp add: of_opt_int_def)
  have rc: "compute_row_confidence ?row (Fin 0.4) None = Inr NaN"
    unfolding compute_row_confidence_def rb
    by (simp add: model_confs_def py_sum_def py_max_def py_min_def fsub_def)
  have sr: "score_row ?row = Inr (?row\<lparr>rule_based_confidence := Fin 0.3, row_confidence := NaN\<rparr>)"
    unfolding score_row_def rb rc by simp
  show ?thesis
    by (simp add: extract_page_def p sr)
qed

section \<open>Values taken from the reply\<close>

lemma py_get_obj: "py_get (JObj kvs) k d = Inr (case map_of kvs k of None \<Rightarrow> d | Some v \<Rightarrow> v)"
  by (simp add: py_get_def)






lemma and_then_assoc:
  "and_then (and_then m f) g = and_then m (\<lambda>x. and_then (f x) g)"
  by (cases m) simp_all

lemma py_get_obj': "py_get (JObj kvs) k d = Inr (dict_get (map_of kvs) k d)"
  by (simp add: py_get_def dict_get_def)

lemma parse_row_obj:
  "parse_row env page_meta i (JObj kvs) =
   and_then (row_numbers env page_meta i (map_of kvs))
     (\<lambda>n. Inr (row_of_numbers env page_meta (map_of kvs) n))"
  unfolding parse_row_def row_numbers_def row_of_numbers_def py_get_obj' and_then_assoc
    and_then.simps prod.case
  by (rule refl)

lemma parse_row_not_obj:
  "(\<forall>kvs. r \<noteq> JObj kvs) \<Longrightarrow> parse_row env page_meta i r = Inl AttributeError"
  by (cases r) (simp_all add: parse_row_def py_get_def)








lemma classification_ids:
  assumes "classification_of_reply env doc pid (Parsed (JObj kvs)) = Inr meta"
  shows "doc_id meta = (case map_of kvs ''doc_id'' of Some v \<Rightarrow> py_str env v | None \<Rightarrow> doc)
   \<and> py_int env (case map_of kvs ''page_id'' of Some v \<Rightarrow> v | None \<Rightarrow> JInt pid)
       = Inr (page_id meta)"
  using assms
  by (cases "map_of kvs ''doc_id''")
     (auto simp: classification_of_reply_def py_get_obj Let_def and_then_Inr_iff py_str_def)

lemma py_int_JInt [simp]: "py_int env (JInt i) = Inr i"
  by (simp add: py_int_def)

lemma row_numbers_page_id:
  "row_numbers env page_meta i f = Inr n \<Longrightarrow>
   py_int env (dict_get f ''page_id'' (JInt (page_id page_meta))) = Inr (fst n)"
  by (auto simp: row_numbers_def and_then_Inr_iff)

lemma row_of_numbers_ids:
  "doc_id (row_of_numbers env page_meta f n)
     = py_str env (dict_get f ''doc_id'' (JStr (doc_id page_meta)))
   \<and> page_id (row_of_numbers env page_meta f n) = fst n"
proof -
  obtain pid rid c1 c2 c3 c4 c5 c6 where n: "n = (pid, rid, c1, c2, c3, c4, c5, c6)"
    by (cases n) auto
  show ?thesis
    unfolding n row_of_numbers_def prod.case by (simp split del: if_split)
qed

lemma parse_row_ids:
  assumes "parse_row env page_meta i (JObj kvs) = Inr row"
  shows "doc_id row
     = (case map_of kvs ''doc_id'' of Some v \<Rightarrow> py_str env v | None \<Rightarrow> doc_id page_meta)
   \<and> py_int env (case map_of kvs ''page_id'' of Some v \<Rightarrow> v | None \<Rightarrow> JInt (page_id page_meta))
       = Inr (page_id row)"
proof -
  from assms obtain n where n: "row_numbers env page_meta i (map_of kvs) = Inr n"
    and row: "row = row_of_numbers env page_meta (map_of kvs) n"
    unfolding parse_row_obj and_then_Inr_iff by auto
  have d: "doc_id row = py_str env (dict_get (map_of kvs) ''doc_id'' (JStr (doc_id page_meta)))"
    and p: "page_id row = fst n"
    using row_of_numbers_ids [of env page_meta "map_of kvs" n] by (simp_all add: row)
  have "doc_id row
     = (case map_of kvs ''doc_id'' of Some v \<Rightarrow> py_str env v | None \<Rightarrow> doc_id page_meta)"
    unfolding d by (cases "map_of kvs ''doc_id''") (simp_all add: dict_get_def py_str_def)
  moreover have "py_int env
      (case map_of kvs ''page_id'' of Some v \<Rightarrow> v | None \<Rightarrow> JInt (page_id page_meta))
       = Inr (page_id row)"
    using row_numbers_page_id [OF n] unfolding p
    by (cases "map_of kvs ''page_id''") (simp_all add: dict_get_def)
  ultimately show ?thesis
    by (rule conjI)
qed

lemma classify_reply_other_ids:
  "classification_of_reply env ''1704'' 1 reply_other_ids =
   Inr \<lparr>doc_id = ''1712'', page_id = 7, page_type = Unknown,
        financial_structure_overview = ''Two columns of names and sums''\<rparr>"
  by (simp add: classification_of_reply_def reply_other_ids_def py_get_obj py_str_def)

lemma classify_page_success:
  "classify_page_with_llm env doc pid page_text = Inr meta \<Longrightarrow>
   classify_page env doc pid page_text = Inr meta"
  by (simp add: classify_page_def)




text \<open>
  C10. In a reply that the classifier accepts, the document id of the result is
  \<open>str\<close> of the reply's \<open>doc_id\<close> when the reply has one and the caller's document id
  otherwise, and the page id is \<open>int\<close> of the reply's \<open>page_id\<close> when the reply has
  one and the caller's page id otherwise; likewise for every row of a reply that the
  extractor accepts, with the identifiers of the page metadata as the defaults. So a
  result can carry identifiers other than the ones passed in: asked for page 1 of document
  1704, the classifier returns document 1712 and page 7 when the reply says so, and so
  does the extractor.
\<close>

theorem identifiers_from_reply:
  "(classification_of_reply env doc pid (Parsed (JObj kvs)) = Inr meta \<longrightarrow>
      doc_id meta = (case map_of kvs ''doc_id'' of Some v \<Rightarrow> py_str env v | None \<Rightarrow> doc)
      \<and> (case map_of kvs ''page_id'' of
            Some v \<Rightarrow> py_int env v = Inr (page_id meta)
          | None \<Rightarrow> page_id meta = pid))
   \<and> (parse_row env page_meta i (JObj kvs) = Inr row \<longrightarrow>
      doc_id row
        = (case map_of kvs ''doc_id'' of Some v \<Rightarrow> py_str env v | None \<Rightarrow> doc_id page_meta)
      \<and> (case map_of kvs ''page_id'' of
            Some v \<Rightarrow> py_int env v = Inr (page_id row)
          | None \<Rightarrow> page_id row = page_id page_meta))
   \<and> classify_page (stub_env reply_other_ids) ''1704'' 1 ''Names and sums'' =
       Inr \<lparr>doc_id = ''1712'', page_id = 7, page_type = Unknown,
            financial_structure_overview = ''Two columns of names and sums''\<rparr>
   \<and> map (\<lambda>r. (doc_id r, page_id r))
       (case extract_page_with_llm (stub_env reply_one_row) sample_meta ''Names and sums'' of
          Inr rows \<Rightarrow> rows | Inl e \<Rightarrow> [])
     = [(''1712'', 7)]
   \<and> (doc_id sample_meta, page_id sample_meta) = (''1704'', 1)"
proof (intro conjI impI)
  assume a: "classification_of_reply env doc pid (Parsed (JObj kvs)) = Inr meta"
  show "doc_id meta = (case map_of kvs ''doc_id'' of Some v \<Rightarrow> py_str env v | None \<Rightarrow> doc)"
    using classification_ids [OF a] by simp
  show "case map_of kvs ''page_id'' of
            Some v \<Rightarrow> py_int env v = Inr (page_id meta)
          | None \<Rightarrow> page_id meta = pid"
    using classification_ids [OF a] by (cases "map_of kvs ''page_id''") auto
next
  assume a: "parse_row env page_meta i (JObj kvs) = Inr row"
  show "doc_id row
        = (case map_of kvs ''doc_id'' of Some v \<Rightarrow> py_str env v | None \<Rightarrow> doc_id page_meta)"
    using parse_row_ids [OF a] by simp
  show "case map_of kvs ''page_id'' of
            Some v \<Rightarrow> py_int env v = Inr (page_id row)
          | None \<Rightarrow> page_id row = page_id page_meta"
    using parse_row_ids [OF a] by (cases "map_of kvs ''page_id''") auto
next
  have "classify_page_with_llm (stub_env reply_other_ids) ''1704'' 1 ''Names and sums'' =
       Inr \<lparr>doc_id = ''1712'', page_id = 7, page_type = Unknown,
            financial_structure_overview = ''Two columns of names and sums''\<rparr>"
    using classify_reply_other_ids by (simp add: classify_page_with_llm_def stub_env_def)
  then show "classify_page (stub_env reply_other_ids) ''1704'' 1 ''Names and sums'' =
       Inr \<lparr>doc_id = ''1712'', page_id = 7, page_type = Unknown,
            financial_structure_overview = ''Two columns of names and sums''\<rparr>"
    by (rule classify_page_success)
next
  show "map (\<lambda>r. (doc_id r, page_id r))
       (case extract_page_with_llm (stub_env reply_one_row) sample_meta ''Names and sums'' of
          Inr rows \<Rightarrow> rows | Inl e \<Rightarrow> [])
     = [(''1712'', 7)]"
    by (simp add: parse_reply_one_row)
next
  show "(doc_id sample_meta, page_id sample_meta) = (''1704'', 1)"
    by (simp add: sample_meta_def)
qed

theorem identifiers_from_reply_witness:
  "classification_of_reply (stub_env CallFails) ''1704'' 1 reply_other_ids =
     Inr \<lparr>doc_id = ''1712'', page_id = 7, page_type = Unknown,
          financial_structure_overview = ''Two columns of names and sums''\<rparr>
   \<and> py_str (stub_env CallFails) (JStr ''1712'') = ''1712''
   \<and> py_int (stub_env CallFails) (JInt 7) = Inr 7"
proof -
  note c = classify_reply_other_ids [of "stub_env CallFails", unfolded reply_other_ids_def]
  note a = identifiers_from_reply
    [where env = "stub_env CallFails" and doc = "''1704''" and pid = 1,
     THEN conjunct1, THEN mp, OF c]
  show ?thesis
    using a c by (simp add: reply_other_ids_def py_str_def)
qed

section \<open>Properties of the classifier\<close>

lemma classify_llm_failed_reply:
  "classify_service env doc pid page_text \<in> {CallFails, NoContent, Malformed} \<Longrightarrow>
   \<exists>e. classify_page_with_llm env doc pid page_text = Inl e"
  by (auto simp: classify_page_with_llm_def classification_of_reply_def)

lemma classify_page_fallback:
  "classify_page_with_llm env doc pid page_text = Inl e \<Longrightarrow>
   classify_page env doc pid page_text =
     Inr \<lparr>doc_id = doc, page_id = pid,
          page_type =
            (if sublist ''total'' (lower page_text) \<or> sublist ''balance'' (lower page_text)
             then Full_Balance_Sheet else Sectional_List),
          financial_structure_overview =
            ''Fallback: '' @
            (if sublist ''total'' (lower page_text) \<or> sublist ''balance'' (lower page_text)
             then ''classified as balance/summary page based on presence of 'total' or 'balance'.''
             else ''classified as list page using simple keyword heuristic.'')\<rparr>"
  by (simp add: classify_page_def Let_def)

lemma classify_page_total: "\<exists>meta. classify_page env doc pid page_text = Inr meta"
proof (cases "classify_page_with_llm env doc pid page_text")
  case (Inl e)
  then show ?thesis
    using classify_page_fallback [of env doc pid page_text e] by blast
next
  case (Inr meta)
  then show ?thesis
    by (simp add: classify_page_def)
qed

lemma lower_sample: "lower ''Total 3 4 5'' = ''total 3 4 5''"
  by code_simp

text \<open>
  C5. \<open>classify_page\<close> returns a page metadata for every document id, page id and page
  text, the empty text included, and whatever the classification service does. A failed
  call, a reply without content and a reply that is not JSON make the service path fail;
  whenever that path fails, for whatever reason, the result carries the caller's
  identifiers, the page type Full_Balance_Sheet if the lower-cased text contains
  \<open>total\<close> or \<open>balance\<close> and Sectional_List otherwise, and an overview that starts
  with \<open>Fallback:\<close>. When the service path succeeds its result is returned as it is.
\<close>

theorem classify_page_never_raises:
  "(\<exists>meta. classify_page env doc pid page_text = Inr meta)
   \<and> (classify_service env doc pid page_text \<in> {CallFails, NoContent, Malformed} \<longrightarrow>
        (\<exists>e. classify_page_with_llm env doc pid page_text = Inl e))
   \<and> (classify_page_with_llm env doc pid page_text = Inl e \<longrightarrow>
        classify_page env doc pid page_text =
          Inr \<lparr>doc_id = doc, page_id = pid,
               page_type =
                 (if sublist ''total'' (lower page_text) \<or> sublist ''balance'' (lower page_text)
                  then Full_Balance_Sheet else Sectional_List),
               financial_structure_overview =
                 ''Fallback: '' @
                 (if sublist ''total'' (lower page_text) \<or> sublist ''balance'' (lower page_text)
                  then ''classified as balance/summary page based on presence of 'total' or 'balance'.''
                  else ''classified as list page using simple keyword heuristic.'')\<rparr>)
   \<and> (classify_page_with_llm env doc pid [] = Inl e \<longrightarrow>
        classify_page env doc pid [] =
          Inr \<lparr>doc_id = doc, page_id = pid, page_type = Sectional_List,
               financial_structure_overview =
                 ''Fallback: classified as list page using simple keyword heuristic.''\<rparr>)
   \<and> (classify_page_with_llm env doc pid page_text = Inr meta \<longrightarrow>
        classify_page env doc pid page_text = Inr meta)"
proof (intro conjI impI)
  show "\<exists>meta. classify_page env doc pid page_text = Inr meta"
    by (rule classify_page_total)
next
  assume "classify_service env doc pid page_text \<in> {CallFails, NoContent, Malformed}"
  then show "\<exists>e. classify_page_with_llm env doc pid page_text = Inl e"
    by (rule classify_llm_failed_reply)
next
  assume "classify_page_with_llm env doc pid page_text = Inl e"
  then show "classify_page env doc pid page_text =
          Inr \<lparr>doc_id = doc, page_id = pid,
               page_type =
                 (if sublist ''total'' (lower page_text) \<or> sublist ''balance'' (lower page_text)
                  then Full_Balance_Sheet else Sectional_List),
               financial_structure_overview =
                 ''Fallback: '' @
                 (if sublist ''total'' (lower page_text) \<or> sublist ''balance'' (lower page_text)
                  then ''classified as balance/summary page based on presence of 'total' or 'balance'.''
                  else ''classified as list page using simple keyword heuristic.'')\<rparr>"
    by (rule classify_page_fallback)
next
  assume "classify_page_with_llm env doc pid [] = Inl e"
  then show "classify_page env doc pid [] =
          Inr \<lparr>doc_id = doc, page_id = pid, page_type = Sectional_List,
               financial_structure_overview =
                 ''Fallback: classified as list page using simple keyword heuristic.''\<rparr>"
    using classify_page_fallback [of env doc pid "[]" e] by (simp add: lower_def)
next
  assume "classify_page_with_llm env doc pid page_text = Inr meta"
  then show "classify_page env doc pid page_text = Inr meta"
    by (simp add: classify_page_def)
qed

theorem classify_page_never_raises_witness:
  "classify_page (stub_env Malformed) ''1704'' 3 ''Total 3 4 5'' =
     Inr \<lparr>doc_id = ''1704'', page_id = 3, page_type = Full_Balance_Sheet,
          financial_structure_overview =
            ''Fallback: classified as balance/summary page based on presence of 'total' or 'balance'.''\<rparr>
   \<and> classify_page (stub_env NoContent) ''1704'' 3 [] =
     Inr \<lparr>doc_id = ''1704'', page_id = 3, page_type = Sectional_List,
          financial_structure_overview =
            ''Fallback: classified as list page using simple keyword heuristic.''\<rparr>
   \<and> classify_page (stub_env reply_other_ids) ''1704'' 1 ''Names and sums'' =
     Inr \<lparr>doc_id = ''1712'', page_id = 7, page_type = Unknown,
          financial_structure_overview = ''Two columns of names and sums''\<rparr>"
proof -
  have f1: "classify_page_with_llm (stub_env Malformed) ''1704'' 3 ''Total 3 4 5''
      = Inl JSONDecodeError"
    by (simp add: classify_page_with_llm_def classification_of_reply_def stub_env_def)
  have f2: "classify_page_with_llm (stub_env NoContent) ''1704'' 3 [] = Inl RuntimeError"
    by (simp add: classify_page_with_llm_def classification_of_reply_def stub_env_def)
  have f3: "classify_page_with_llm (stub_env reply_other_ids) ''1704'' 1 ''Names and sums'' =
     Inr \<lparr>doc_id = ''1712'', page_id = 7, page_type = Unknown,
          financial_structure_overview = ''Two columns of names and sums''\<rparr>"
    using classify_reply_other_ids by (simp add: classify_page_with_llm_def stub_env_def)
  note a = classify_page_never_raises
    [where env = "stub_env Malformed" and doc = "''1704''" and pid = 3
       and page_text = "''Total 3 4 5''" and e = JSONDecodeError,
     THEN conjunct2, THEN conjunct2, THEN conjunct1, THEN mp, OF f1]
  note b = classify_page_never_raises
    [where env = "stub_env NoContent" and doc = "''1704''" and pid = 3 and e = RuntimeError,
     THEN conjunct2, THEN conjunct2, THEN conjunct2, THEN conjunct1, THEN mp, OF f2]
  note c = classify_page_never_raises
    [where env = "stub_env reply_other_ids" and doc = "''1704''" and pid = 1
       and page_text = "''Names and sums''",
     THEN conjunct2, THEN conjunct2, THEN conjunct2, THEN conjunct2, THEN mp, OF f3]
  have s: "sublist ''total'' ''total 3 4 5''"
    by (simp add: sublist_Cons_right)
  show ?thesis
    using a b c by (simp add: lower_sample s)
qed

section \<open>Properties of the pipeline\<close>

lemma process_pages_cong:
  "map_of pages = map_of pages' \<Longrightarrow>
   process_pages env doc pages pids acc = process_pages env doc pages' pids acc"
proof (induction pids arbitrary: acc)
  case Nil
  show ?case
    by simp
next
  case (Cons pid rest)
  have ih: "\<And>a. process_pages env doc pages rest a = process_pages env doc pages' rest a"
    using Cons.IH [OF Cons.prems] .
  show ?case
    unfolding process_pages.simps Cons.prems ih by (rule refl)
qed

lemma sorted_keys_unique:
  assumes "distinct (map fst pages)" and "distinct (map fst pages')" and "set pages' = set pages"
  shows "sort (map fst pages') = sort (map fst pages)"
proof (rule sorted_distinct_set_unique)
  show "sorted (sort (map fst pages'))" and "sorted (sort (map fst pages))"
    by simp_all
  show "distinct (sort (map fst pages'))" and "distinct (sort (map fst pages))"
    using assms by simp_all
  show "set (sort (map fst pages')) = set (sort (map fst pages))"
    using assms(3) by simp
qed

lemma process_document_order_independent:
  assumes "distinct (map fst pages)" and "distinct (map fst pages')" and "set pages' = set pages"
  shows "process_document env doc pages' = process_document env doc pages"
proof -
  have "map_of pages' = map_of pages"
    using assms by (simp add: map_of_inject_set)
  then show ?thesis
    unfolding process_document_def sorted_keys_unique [OF assms]
    by (rule process_pages_cong)
qed

lemma process_pages_Inr:
  "process_pages env doc pages pids acc = Inr (ms, rs) \<Longrightarrow>
   \<exists>outs. list_all2 (\<lambda>pid out. \<exists>page_text. map_of pages pid = Some page_text
              \<and> process_single_page env doc pid page_text = Inr out) pids outs
     \<and> ms = fst acc @ map fst outs \<and> rs = snd acc @ concat (map snd outs)"
proof (induction pids arbitrary: acc)
  case Nil
  then show ?case
    by auto
next
  case (Cons pid rest)
  from Cons.prems obtain page_text out where t: "map_of pages pid = Some page_text"
    and o: "process_single_page env doc pid page_text = Inr out"
    and r: "process_pages env doc pages rest (fst acc @ [fst out], snd acc @ snd out) = Inr (ms, rs)"
    by (auto simp: and_then_Inr_iff split: option.splits)
  from Cons.IH [OF r] obtain outs where
    l: "list_all2 (\<lambda>pid out. \<exists>page_text. map_of pages pid = Some page_text
              \<and> process_single_page env doc pid page_text = Inr out) rest outs"
    and m: "ms = (fst acc @ [fst out]) @ map fst outs"
    and s: "rs = (snd acc @ snd out) @ concat (map snd outs)"
    by auto
  have "list_all2 (\<lambda>pid out. \<exists>page_text. map_of pages pid = Some page_text
              \<and> process_single_page env doc pid page_text = Inr out) (pid # rest) (out # outs)"
    using t o l by auto
  moreover have "ms = fst acc @ map fst (out # outs)"
    using m by simp
  moreover have "rs = snd acc @ concat (map snd (out # outs))"
    using s by simp
  ultimately show ?case
    by blast
qed

lemma process_document_two_pages:
  "process_document env doc [(2, ''B''), (1, ''A'')] =
   and_then (process_single_page env doc 1 ''A'') (\<lambda>out1.
   and_then (process_single_page env doc 2 ''B'') (\<lambda>out2.
     Inr ([fst out1, fst out2], snd out1 @ snd out2)))"
proof -
  have s: "sort (map fst [(2 :: int, ''B''), (1, ''A'')]) = [1, 2]"
    by simp
  show ?thesis
    unfolding process_document_def s
    by (cases "process_single_page env doc 1 ''A''";
        cases "process_single_page env doc 2 ''B''") simp_all
qed

lemma single_page_fallback:
  "process_single_page (stub_env CallFails) doc pid page_text =
   Inr (\<lparr>doc_id = doc, page_id = pid,
          page_type =
            (if sublist ''total'' (lower page_text) \<or> sublist ''balance'' (lower page_text)
             then Full_Balance_Sheet else Sectional_List),
          financial_structure_overview =
            ''Fallback: '' @
            (if sublist ''total'' (lower page_text) \<or> sublist ''balance'' (lower page_text)
             then ''classified as balance/summary page based on presence of 'total' or 'balance'.''
             else ''classified as list page using simple keyword heuristic.'')\<rparr>,
        [(dummy_row \<lparr>doc_id = doc, page_id = pid,
          page_type =
            (if sublist ''total'' (lower page_text) \<or> sublist ''balance'' (lower page_text)
             then Full_Balance_Sheet else Sectional_List),
          financial_structure_overview =
            ''Fallback: '' @
            (if sublist ''total'' (lower page_text) \<or> sublist ''balance'' (lower page_text)
             then ''classified as balance/summary page based on presence of 'total' or 'balance'.''
             else ''classified as list page using simple keyword heuristic.'')\<rparr>)
          \<lparr>rule_based_confidence := Fin 0.7, row_confidence := Fin 0.33\<rparr>])"
proof -
  have c: "classify_page_with_llm (stub_env CallFails) doc pid page_text = Inl ServiceError"
    by (simp add: classify_page_with_llm_def classification_of_reply_def stub_env_def)
  have e: "\<And>m. extract_page_with_llm (stub_env CallFails) m page_text = Inl ServiceError"
    by (simp add: extract_page_with_llm_def rows_of_reply_def stub_env_def)
  show ?thesis
    unfolding process_single_page_def classify_page_fallback [OF c] and_then.simps
      extract_page_fallback [OF e]
    by (rule refl)
qed

text \<open>
  C6. For a dict of pages (the list of its items, with distinct keys) \<open>process_document\<close>
  visits the page ids in ascending order, each once: the metadata returned are those of the
  pages in that order and the rows are the pages' rows concatenated in that order. The
  result does not depend on the order of the items in the dict. For the dict
  \<open>{2: "B", 1: "A"}\<close> page 1 is processed first, then page 2, and the metadata and
  rows of page 1 stand before those of page 2.
\<close>

theorem process_document_ascending:
  assumes "distinct (map fst pages)"
  shows "sorted (sort (map fst pages)) \<and> distinct (sort (map fst pages))
   \<and> set (sort (map fst pages)) = fst ` set pages
   \<and> (process_document env doc pages = Inr (ms, rs) \<longrightarrow>
        (\<exists>outs. list_all2 (\<lambda>pid out. \<exists>page_text. (pid, page_text) \<in> set pages
                    \<and> process_single_page env doc pid page_text = Inr out)
                  (sort (map fst pages)) outs
           \<and> ms = map fst outs \<and> rs = concat (map snd outs)))
   \<and> (distinct (map fst pages') \<and> set pages' = set pages \<longrightarrow>
        process_document env doc pages' = process_document env doc pages)
   \<and> process_document env doc [(2, ''B''), (1, ''A'')] =
       and_then (process_single_page env doc 1 ''A'') (\<lambda>out1.
       and_then (process_single_page env doc 2 ''B'') (\<lambda>out2.
         Inr ([fst out1, fst out2], snd out1 @ snd out2)))"
proof (intro conjI impI)
  show "sorted (sort (map fst pages))"
    by simp
  show "distinct (sort (map fst pages))"
    using assms by simp
  show "set (sort (map fst pages)) = fst ` set pages"
    by simp
next
  assume "process_document env doc pages = Inr (ms, rs)"
  then have "\<exists>outs. list_all2 (\<lambda>pid out. \<exists>page_text. map_of pages pid = Some page_text
              \<and> process_single_page env doc pid page_text = Inr out) (sort (map fst pages)) outs
     \<and> ms = map fst outs \<and> rs = concat (map snd outs)"
    using process_pages_Inr [of env doc pages "sort (map fst pages)" "([], [])" ms rs]
    by (simp add: process_document_def)
  then show "\<exists>outs. list_all2 (\<lambda>pid out. \<exists>page_text. (pid, page_text) \<in> set pages
                    \<and> process_single_page env doc pid page_text = Inr out)
                  (sort (map fst pages)) outs
           \<and> ms = map fst outs \<and> rs = concat (map snd outs)"
    using assms by simp
next
  assume "distinct (map fst pages') \<and> set pages' = set pages"
  then show "process_document env doc pages' = process_document env doc pages"
    using process_document_order_independent [OF assms, of pages' env doc] by simp
next
  show "process_document env doc [(2, ''B''), (1, ''A'')] =
       and_then (process_single_page env doc 1 ''A'') (\<lambda>out1.
       and_then (process_single_page env doc 2 ''B'') (\<lambda>out2.
         Inr ([fst out1, fst out2], snd out1 @ snd out2)))"
    by (rule process_document_two_pages)
qed

theorem process_document_ascending_witness:
  "process_document (stub_env CallFails) ''1704'' [(2, ''B''), (1, ''A'')] =
     process_document (stub_env CallFails) ''1704'' [(1, ''A''), (2, ''B'')]
   \<and> (case process_document (stub_env CallFails) ''1704'' [(2, ''B''), (1, ''A'')] of
        Inr out \<Rightarrow> (map page_id (fst out), map page_id (snd out)) | Inl e \<Rightarrow> ([], []))
     = ([1, 2], [1, 2])"
proof -
  have d: "distinct (map fst [(1 :: int, ''A''), (2, ''B'')])"
    by simp
  have h: "distinct (map fst [(2 :: int, ''B''), (1, ''A'')])
      \<and> set [(2 :: int, ''B''), (1, ''A'')] = set [(1, ''A''), (2, ''B'')]"
    by auto
  note t = process_document_ascending [OF d, where env = "stub_env CallFails" and doc = "''1704''"]
  note a = t [THEN conjunct2, THEN conjunct2, THEN conjunct2, THEN conjunct2, THEN conjunct1,
    THEN mp, OF h]
  note b = t [THEN conjunct2, THEN conjunct2, THEN conjunct2, THEN conjunct2, THEN conjunct2]
  have c: "(case process_document (stub_env CallFails) ''1704'' [(2, ''B''), (1, ''A'')] of
        Inr out \<Rightarrow> (map page_id (fst out), map page_id (snd out)) | Inl e \<Rightarrow> ([], []))
     = ([1, 2], [1, 2])"
    unfolding b single_page_fallback and_then.simps
    by (simp add: dummy_row_def)
  show ?thesis
    using a c by simp
qed

section \<open>Properties of the cached transcription\<close>

lemma distinct_keys_sort_key:
  "distinct (map f (sort_key f xs)) = distinct (map f xs)"
  by (induction xs) (simp_all add: distinct_insort_key)

lemma loop_hit:
  "ocr_cache w (doc, pid) = Some cached \<Longrightarrow>
   ocr_pages_loop env doc ((pid, image_path) # rest) pages_text w =
   ocr_pages_loop env doc rest (AList.update pid cached pages_text) w"
  by simp

lemma loop_miss:
  "ocr_cache w (doc, pid) = None \<Longrightarrow> ocr_page_with_gpt env image_path = Inr page_text \<Longrightarrow>
   ocr_pages_loop env doc ((pid, image_path) # rest) pages_text w =
   ocr_pages_loop env doc rest (AList.update pid page_text pages_text)
     (w\<lparr>ocr_calls := ocr_calls w @ [image_path],
        ocr_cache := (ocr_cache w)((doc, pid) \<mapsto> page_text)\<rparr>)"
  by (simp add: Let_def)

lemma loop_miss_raises:
  "ocr_cache w (doc, pid) = None \<Longrightarrow> ocr_page_with_gpt env image_path = Inl e \<Longrightarrow>
   ocr_pages_loop env doc ((pid, image_path) # rest) pages_text w =
   (Inl e, w\<lparr>ocr_calls := ocr_calls w @ [image_path]\<rparr>)"
  by (simp add: Let_def)

text \<open>An entry of the cache is never overwritten or removed.\<close>

lemma loop_cache_kept:
  "ocr_pages_loop env doc items pages_text w = (res, w') \<Longrightarrow> ocr_cache w k = Some v \<Longrightarrow>
   ocr_cache w' k = Some v"
proof (induction items arbitrary: pages_text w)
  case Nil
  then show ?case
    by simp
next
  case (Cons item rest)
  obtain pid image_path where item: "item = (pid, image_path)"
    by (cases item)
  show ?case
  proof (cases "ocr_cache w (doc, pid)")
    case (Some cached)
    with Cons.prems(1) have
      "ocr_pages_loop env doc rest (AList.update pid cached pages_text) w = (res, w')"
      by (simp add: item)
    then show ?thesis
      using Cons.prems(2) by (rule Cons.IH)
  next
    case None
    show ?thesis
    proof (cases "ocr_page_with_gpt env image_path")
      case (Inl e)
      with None Cons.prems show ?thesis
        by (auto simp: item Let_def)
    next
      case (Inr page_text)
      let ?w = "w\<lparr>ocr_calls := ocr_calls w @ [image_path],
        ocr_cache := (ocr_cache w)((doc, pid) \<mapsto> page_text)\<rparr>"
      from Cons.prems(1) have
        r: "ocr_pages_loop env doc rest (AList.update pid page_text pages_text) ?w = (res, w')"
        unfolding item loop_miss [OF None Inr] .
      have "k \<noteq> (doc, pid)"
        using None Cons.prems(2) by auto
      then have "ocr_cache ?w k = Some v"
        using Cons.prems(2) by simp
      with r show ?thesis
        by (rule Cons.IH)
    qed
  qed
qed

text \<open>When every page has its entry, nothing is called and nothing changes.\<close>

lemma loop_all_cached:
  "\<forall>item \<in> set items. ocr_cache w (doc, fst item) \<noteq> None \<Longrightarrow>
   \<exists>pages. ocr_pages_loop env doc items pages_text w = (Inr pages, w)
     \<and> (\<forall>k. map_of pages k =
           (if k \<in> fst ` set items then ocr_cache w (doc, k) else map_of pages_text k))"
proof (induction items arbitrary: pages_text)
  case Nil
  then show ?case
    by simp
next
  case (Cons item rest)
  obtain pid image_path where item: "item = (pid, image_path)"
    by (cases item)
  from Cons.prems obtain cached where c: "ocr_cache w (doc, pid) = Some cached"
    by (auto simp: item)
  from Cons.prems have "\<forall>item \<in> set rest. ocr_cache w (doc, fst item) \<noteq> None"
    by simp
  from Cons.IH [OF this, of "AList.update pid cached pages_text"] obtain pages where
    p: "ocr_pages_loop env doc rest (AList.update pid cached pages_text) w = (Inr pages, w)"
    and m: "\<forall>k. map_of pages k =
           (if k \<in> fst ` set rest then ocr_cache w (doc, k)
            else map_of (AList.update pid cached pages_text) k)"
    by blast
  have "ocr_pages_loop env doc (item # rest) pages_text w = (Inr pages, w)"
    unfolding item loop_hit [OF c] by (rule p)
  moreover have "\<forall>k. map_of pages k =
           (if k \<in> fst ` set (item # rest) then ocr_cache w (doc, k) else map_of pages_text k)"
    using m c by (auto simp: item update_conv')
  ultimately show ?case
    by blast
qed

text \<open>A run that returns: one call per page without an entry, in ascending order.\<close>

lemma loop_returns:
  "ocr_pages_loop env doc items pages_text w = (Inr pages, w') \<Longrightarrow> distinct (map fst items) \<Longrightarrow>
   ocr_calls w' =
     ocr_calls w @ map snd (filter (\<lambda>item. ocr_cache w (doc, fst item) = None) items)
   \<and> (\<forall>k. map_of pages k =
         (if k \<in> fst ` set items then ocr_cache w' (doc, k) else map_of pages_text k))
   \<and> (\<forall>item \<in> set items. ocr_cache w' (doc, fst item) \<noteq> None)"
proof (induction items arbitrary: pages_text w)
  case Nil
  then show ?case
    by simp
next
  case (Cons item rest)
  obtain pid image_path where item: "item = (pid, image_path)"
    by (cases item)
  from Cons.prems(2) have d: "distinct (map fst rest)" and fresh: "pid \<notin> fst ` set rest"
    by (simp_all add: item)
  show ?case
  proof (cases "ocr_cache w (doc, pid)")
    case (Some cached)
    from Cons.prems(1) have
      r: "ocr_pages_loop env doc rest (AList.update pid cached pages_text) w = (Inr pages, w')"
      unfolding item loop_hit [OF Some] .
    note ih = Cons.IH [OF r d]
    have kept: "ocr_cache w' (doc, pid) = Some cached"
      using loop_cache_kept [OF r Some] .
    have "ocr_calls w' =
        ocr_calls w @ map snd (filter (\<lambda>item. ocr_cache w (doc, fst item) = None) (item # rest))"
      using ih Some by (simp add: item)
    moreover have "\<forall>k. map_of pages k =
         (if k \<in> fst ` set (item # rest) then ocr_cache w' (doc, k) else map_of pages_text k)"
      using ih fresh kept by (auto simp: item update_conv')
    moreover have "\<forall>item \<in> set (item # rest). ocr_cache w' (doc, fst item) \<noteq> None"
      using ih kept by (simp add: item)
    ultimately show ?thesis
      by blast
  next
    case None
    from Cons.prems(1) obtain page_text where t: "ocr_page_with_gpt env image_path = Inr page_text"
      using None by (cases "ocr_page_with_gpt env image_path") (auto simp: item Let_def)
    let ?w = "w\<lparr>ocr_calls := ocr_calls w @ [image_path],
        ocr_cache := (ocr_cache w)((doc, pid) \<mapsto> page_text)\<rparr>"
    from Cons.prems(1) have
      r: "ocr_pages_loop env doc rest (AList.update pid page_text pages_text) ?w = (Inr pages, w')"
      unfolding item loop_miss [OF None t] .
    note ih = Cons.IH [OF r d]
    have "ocr_cache ?w (doc, pid) = Some page_text"
      by simp
    then have kept: "ocr_cache w' (doc, pid) = Some page_text"
      by (rule loop_cache_kept [OF r])
    have same: "filter (\<lambda>item. ocr_cache ?w (doc, fst item) = None) rest
        = filter (\<lambda>item. ocr_cache w (doc, fst item) = None) rest"
      using fresh by (intro filter_cong) auto
    have "ocr_calls w' =
        ocr_calls w @ map snd (filter (\<lambda>item. ocr_cache w (doc, fst item) = None) (item # rest))"
      using ih None unfolding same by (simp add: item)
    moreover have "\<forall>k. map_of pages k =
         (if k \<in> fst ` set (item # rest) then ocr_cache w' (doc, k) else map_of pages_text k)"
      using ih fresh kept by (auto simp: item update_conv')
    moreover have "\<forall>item \<in> set (item # rest). ocr_cache w' (doc, fst item) \<noteq> None"
      using ih kept by (simp add: item)
    ultimately show ?thesis
      by blast
  qed
qed

text \<open>A run that raises: every page before the failing one has its entry by then.\<close>

lemma loop_raises:
  "ocr_pages_loop env doc items pages_text w = (Inl e, w') \<Longrightarrow> distinct (map fst items) \<Longrightarrow>
   \<exists>before item rest. items = before @ item # rest
     \<and> ocr_cache w (doc, fst item) = None
     \<and> ocr_page_with_gpt env (snd item) = Inl e
     \<and> ocr_calls w' =
         ocr_calls w @ map snd (filter (\<lambda>item. ocr_cache w (doc, fst item) = None) before)
           @ [snd item]
     \<and> (\<forall>b \<in> set before. ocr_cache w' (doc, fst b) \<noteq> None)"
proof (induction items arbitrary: pages_text w)
  case Nil
  then show ?case
    by simp
next
  case (Cons item rest)
  obtain pid image_path where item: "item = (pid, image_path)"
    by (cases item)
  from Cons.prems(2) have d: "distinct (map fst rest)" and fresh: "pid \<notin> fst ` set rest"
    by (simp_all add: item)
  show ?case
  proof (cases "ocr_cache w (doc, pid)")
    case (Some cached)
    from Cons.prems(1) have
      r: "ocr_pages_loop env doc rest (AList.update pid cached pages_text) w = (Inl e, w')"
      unfolding item loop_hit [OF Some] .
    from Cons.IH [OF r d] obtain before it rest' where
      s: "rest = before @ it # rest'" and n: "ocr_cache w (doc, fst it) = None"
      and f: "ocr_page_with_gpt env (snd it) = Inl e"
      and c: "ocr_calls w' =
         ocr_calls w @ map snd (filter (\<lambda>item. ocr_cache w (doc, fst item) = None) before)
           @ [snd it]"
      and p: "\<forall>b \<in> set before. ocr_cache w' (doc, fst b) \<noteq> None"
      by blast
    have kept: "ocr_cache w' (doc, pid) = Some cached"
      using loop_cache_kept [OF r Some] .
    have "item # rest = (item # before) @ it # rest'"
      using s by simp
    moreover have "ocr_calls w' =
         ocr_calls w @ map snd (filter (\<lambda>item. ocr_cache w (doc, fst item) = None) (item # before))
           @ [snd it]"
      using c Some by (simp add: item)
    moreover have "\<forall>b \<in> set (item # before). ocr_cache w' (doc, fst b) \<noteq> None"
      using p kept by (simp add: item)
    ultimately show ?thesis
      using n f by blast
  next
    case None
    show ?thesis
    proof (cases "ocr_page_with_gpt env image_path")
      case (Inl e')
      from Cons.prems(1) have "e' = e" and "w' = w\<lparr>ocr_calls := ocr_calls w @ [image_path]\<rparr>"
        unfolding item loop_miss_raises [OF None Inl] by simp_all
      then have "item # rest = [] @ item # rest
          \<and> ocr_cache w (doc, fst item) = None
          \<and> ocr_page_with_gpt env (snd item) = Inl e
          \<and> ocr_calls w' =
              ocr_calls w @ map snd (filter (\<lambda>item. ocr_cache w (doc, fst item) = None) [])
                @ [snd item]
          \<and> (\<forall>b \<in> set []. ocr_cache w' (doc, fst b) \<noteq> None)"
        using None Inl by (simp add: item)
      then show ?thesis
        by blast
    next
      case (Inr page_text)
      let ?w = "w\<lparr>ocr_calls := ocr_calls w @ [image_path],
        ocr_cache := (ocr_cache w)((doc, pid) \<mapsto> page_text)\<rparr>"
      from Cons.prems(1) have
        r: "ocr_pages_loop env doc rest (AList.update pid page_text pages_text) ?w = (Inl e, w')"
        unfolding item loop_miss [OF None Inr] .
      from Cons.IH [OF r d] obtain before it rest' where
        s: "rest = before @ it # rest'" and n: "ocr_cache ?w (doc, fst it) = None"
        and f: "ocr_page_with_gpt env (snd it) = Inl e"
        and c: "ocr_calls w' =
           ocr_calls ?w @ map snd (filter (\<lambda>item. ocr_cache ?w (doc, fst item) = None) before)
             @ [snd it]"
        and p: "\<forall>b \<in> set before. ocr_cache w' (doc, fst b) \<noteq> None"
        by blast
      have "ocr_cache ?w (doc, pid) = Some page_text"
        by simp
      then have kept: "ocr_cache w' (doc, pid) = Some page_text"
        by (rule loop_cache_kept [OF r])
      have "fst it \<noteq> pid"
        using fresh s by auto
      with n have n': "ocr_cache w (doc, fst it) = None"
        by simp
      have same: "filter (\<lambda>item. ocr_cache ?w (doc, fst item) = None) before
          = filter (\<lambda>item. ocr_cache w (doc, fst item) = None) before"
        using fresh s by (intro filter_cong) auto
      have "item # rest = (item # before) @ it # rest'"
        using s by simp
      moreover have "ocr_calls w' =
           ocr_calls w
             @ map snd (filter (\<lambda>item. ocr_cache w (doc, fst item) = None) (item # before))
             @ [snd it]"
        using c None unfolding same by (simp add: item)
      moreover have "\<forall>b \<in> set (item # before). ocr_cache w' (doc, fst b) \<noteq> None"
        using p kept by (simp add: item)
      ultimately show ?thesis
        using n' f by blast
    qed
  qed
qed

text \<open>
  C7. Take a document whose pages were rendered to images, with distinct page ids. A
  page whose cache entry exists takes its text from the entry and adds no call; a page
  whose entry is missing adds one call and, when the call returns, the text is in the
  cache before the next page is looked at. So a run that returns has called the
  transcription once for each page without an entry, in ascending page order, and for no
  other page; its result holds for each page the text of the page's entry, which for a
  page that had an entry is the text the entry held before. A run that raises has called
  once for each page without an entry up to the failing one, and every page before the
  failing one has its entry. When all entries exist the run returns the stored texts and
  leaves the state as it was: no call is made. A second run after a run that returned,
  whatever the services would answer, makes no call and returns the same texts. No run
  changes or removes an entry that exists.
\<close>

theorem cached_transcription:
  assumes "export_pdf_pages_as_images env doc = Inr page_images"
    and "distinct (map fst page_images)"
  shows
   "(ocr_cache w (doc, pid) = Some cached \<longrightarrow>
       ocr_pages_loop env doc ((pid, image_path) # rest) pages_text w =
       ocr_pages_loop env doc rest (AList.update pid cached pages_text) w)
    \<and> (ocr_cache w (doc, pid) = None \<and> ocr_page_with_gpt env image_path = Inr page_text \<longrightarrow>
       ocr_pages_loop env doc ((pid, image_path) # rest) pages_text w =
       ocr_pages_loop env doc rest (AList.update pid page_text pages_text)
         (w\<lparr>ocr_calls := ocr_calls w @ [image_path],
            ocr_cache := (ocr_cache w)((doc, pid) \<mapsto> page_text)\<rparr>))
    \<and> (ocr_pdf_to_pages_cached env doc w = (Inr pages, w') \<longrightarrow>
       ocr_calls w' =
         ocr_calls w @ map snd (filter (\<lambda>item. ocr_cache w (doc, fst item) = None)
                                  (sort_key fst page_images))
       \<and> (\<forall>item \<in> set page_images.
             map_of pages (fst item) = ocr_cache w' (doc, fst item)
             \<and> ocr_cache w' (doc, fst item) \<noteq> None
             \<and> (\<forall>t. ocr_cache w (doc, fst item) = Some t \<longrightarrow> map_of pages (fst item) = Some t)))
    \<and> (ocr_pdf_to_pages_cached env doc w = (Inl e, w') \<longrightarrow>
       (\<exists>before item after. sort_key fst page_images = before @ item # after
          \<and> ocr_cache w (doc, fst item) = None
          \<and> ocr_page_with_gpt env (snd item) = Inl e
          \<and> ocr_calls w' =
              ocr_calls w @ map snd (filter (\<lambda>item. ocr_cache w (doc, fst item) = None) before)
                @ [snd item]
          \<and> (\<forall>b \<in> set before. ocr_cache w' (doc, fst b) \<noteq> None)))
    \<and> ((\<forall>item \<in> set page_images. ocr_cache w (doc, fst item) \<noteq> None) \<longrightarrow>
       (\<exists>pages. ocr_pdf_to_pages_cached env doc w = (Inr pages, w)
          \<and> (\<forall>item \<in> set page_images. map_of pages (fst item) = ocr_cache w (doc, fst item))))
    \<and> (ocr_pdf_to_pages_cached env doc w = (Inr pages, w')
        \<and> export_pdf_pages_as_images env' doc = Inr page_images \<longrightarrow>
       (\<exists>pages'. ocr_pdf_to_pages_cached env' doc w' = (Inr pages', w')
          \<and> (\<forall>k. map_of pages' k = map_of pages k)))
    \<and> (ocr_pdf_to_pages_cached env doc w = (res, w') \<and> ocr_cache w k = Some v \<longrightarrow>
       ocr_cache w' k = Some v)"
proof -
  let ?items = "sort_key fst page_images"
  have d: "distinct (map fst ?items)"
    using assms(2) by (simp add: distinct_keys_sort_key)
  have run: "\<And>w. ocr_pdf_to_pages_cached env doc w = ocr_pages_loop env doc ?items [] w"
    by (simp add: ocr_pdf_to_pages_cached_def assms(1))
  have c1: "ocr_cache w (doc, pid) = Some cached \<longrightarrow>
       ocr_pages_loop env doc ((pid, image_path) # rest) pages_text w =
       ocr_pages_loop env doc rest (AList.update pid cached pages_text) w"
    using loop_hit by blast
  have c2: "ocr_cache w (doc, pid) = None \<and> ocr_page_with_gpt env image_path = Inr page_text \<longrightarrow>
       ocr_pages_loop env doc ((pid, image_path) # rest) pages_text w =
       ocr_pages_loop env doc rest (AList.update pid page_text pages_text)
         (w\<lparr>ocr_calls := ocr_calls w @ [image_path],
            ocr_cache := (ocr_cache w)((doc, pid) \<mapsto> page_text)\<rparr>)"
    using loop_miss by blast
  have c3: "ocr_pdf_to_pages_cached env doc w = (Inr pages, w') \<longrightarrow>
       ocr_calls w' =
         ocr_calls w @ map snd (filter (\<lambda>item. ocr_cache w (doc, fst item) = None) ?items)
       \<and> (\<forall>item \<in> set page_images.
             map_of pages (fst item) = ocr_cache w' (doc, fst item)
             \<and> ocr_cache w' (doc, fst item) \<noteq> None
             \<and> (\<forall>t. ocr_cache w (doc, fst item) = Some t \<longrightarrow> map_of pages (fst item) = Some t))"
  proof
    assume "ocr_pdf_to_pages_cached env doc w = (Inr pages, w')"
    then have r: "ocr_pages_loop env doc ?items [] w = (Inr pages, w')"
      by (simp add: run)
    note l = loop_returns [OF r d]
    have "\<forall>item \<in> set page_images.
             map_of pages (fst item) = ocr_cache w' (doc, fst item)
             \<and> ocr_cache w' (doc, fst item) \<noteq> None
             \<and> (\<forall>t. ocr_cache w (doc, fst item) = Some t \<longrightarrow> map_of pages (fst item) = Some t)"
    proof
      fix item
      assume i: "item \<in> set page_images"
      then have m: "map_of pages (fst item) = ocr_cache w' (doc, fst item)"
        using l by auto
      have n: "ocr_cache w' (doc, fst item) \<noteq> None"
        using l i by auto
      have "\<forall>t. ocr_cache w (doc, fst item) = Some t \<longrightarrow> map_of pages (fst item) = Some t"
        using loop_cache_kept [OF r] m by auto
      with m n show "map_of pages (fst item) = ocr_cache w' (doc, fst item)
             \<and> ocr_cache w' (doc, fst item) \<noteq> None
             \<and> (\<forall>t. ocr_cache w (doc, fst item) = Some t \<longrightarrow> map_of pages (fst item) = Some t)"
        by blast
    qed
    with l show "ocr_calls w' =
         ocr_calls w @ map snd (filter (\<lambda>item. ocr_cache w (doc, fst item) = None) ?items)
       \<and> (\<forall>item \<in> set page_images.
             map_of pages (fst item) = ocr_cache w' (doc, fst item)
             \<and> ocr_cache w' (doc, fst item) \<noteq> None
             \<and> (\<forall>t. ocr_cache w (doc, fst item) = Some t \<longrightarrow> map_of pages (fst item) = Some t))"
      by blast
  qed
  have c4: "ocr_pdf_to_pages_cached env doc w = (Inl e, w') \<longrightarrow>
       (\<exists>before item after. ?items = before @ item # after
          \<and> ocr_cache w (doc, fst item) = None
          \<and> ocr_page_with_gpt env (snd item) = Inl e
          \<and> ocr_calls w' =
              ocr_calls w @ map snd (filter (\<lambda>item. ocr_cache w (doc, fst item) = None) before)
                @ [snd item]
          \<and> (\<forall>b \<in> set before. ocr_cache w' (doc, fst b) \<noteq> None))"
    using loop_raises [OF _ d, of env doc "[]" w e w'] by (simp add: run)
  have c5: "(\<forall>item \<in> set page_images. ocr_cache w (doc, fst item) \<noteq> None) \<longrightarrow>
       (\<exists>pages. ocr_pdf_to_pages_cached env doc w = (Inr pages, w)
          \<and> (\<forall>item \<in> set page_images. map_of pages (fst item) = ocr_cache w (doc, fst item)))"
  proof
    assume "\<forall>item \<in> set page_images. ocr_cache w (doc, fst item) \<noteq> None"
    then have "\<forall>item \<in> set ?items. ocr_cache w (doc, fst item) \<noteq> None"
      by simp
    from loop_all_cached [OF this, of env "[]"] obtain pages0 where
      "ocr_pages_loop env doc ?items [] w = (Inr pages0, w)"
      and "\<forall>k. map_of pages0 k =
           (if k \<in> fst ` set ?items then ocr_cache w (doc, k) else map_of [] k)"
      by blast
    then have "ocr_pdf_to_pages_cached env doc w = (Inr pages0, w)
          \<and> (\<forall>item \<in> set page_images. map_of pages0 (fst item) = ocr_cache w (doc, fst item))"
      by (auto simp: run)
    then show "\<exists>pages. ocr_pdf_to_pages_cached env doc w = (Inr pages, w)
          \<and> (\<forall>item \<in> set page_images. map_of pages (fst item) = ocr_cache w (doc, fst item))"
      by blast
  qed
  have c6: "ocr_pdf_to_pages_cached env doc w = (Inr pages, w')
        \<and> export_pdf_pages_as_images env' doc = Inr page_images \<longrightarrow>
       (\<exists>pages'. ocr_pdf_to_pages_cached env' doc w' = (Inr pages', w')
          \<and> (\<forall>k. map_of pages' k = map_of pages k))"
  proof
    assume a: "ocr_pdf_to_pages_cached env doc w = (Inr pages, w')
        \<and> export_pdf_pages_as_images env' doc = Inr page_images"
    then have r: "ocr_pages_loop env doc ?items [] w = (Inr pages, w')"
      by (simp add: run)
    note l = loop_returns [OF r d]
    then have "\<forall>item \<in> set ?items. ocr_cache w' (doc, fst item) \<noteq> None"
      by blast
    from loop_all_cached [OF this, of env' "[]"] obtain pages0 where
      p: "ocr_pages_loop env' doc ?items [] w' = (Inr pages0, w')"
      and m: "\<forall>k. map_of pages0 k =
           (if k \<in> fst ` set ?items then ocr_cache w' (doc, k) else map_of [] k)"
      by blast
    have "ocr_pdf_to_pages_cached env' doc w' = (Inr pages0, w')"
      using a p by (simp add: ocr_pdf_to_pages_cached_def)
    moreover have "\<forall>k. map_of pages0 k = map_of pages k"
      using m l by simp
    ultimately show "\<exists>pages'. ocr_pdf_to_pages_cached env' doc w' = (Inr pages', w')
          \<and> (\<forall>k. map_of pages' k = map_of pages k)"
      by blast
  qed
  have c7: "ocr_pdf_to_pages_cached env doc w = (res, w') \<and> ocr_cache w k = Some v \<longrightarrow>
       ocr_cache w' k = Some v"
    using loop_cache_kept [of env doc ?items "[]" w res w' k v] by (simp add: run)
  from c1 c2 c3 c4 c5 c6 c7 show ?thesis
    by (intro conjI)
qed

lemma strip_sample_text: "strip '' Text of page_1.png'' = ''Text of page_1.png''"
  by (simp add: strip_def is_space_def)

lemma sample_first_run:
  "ocr_pdf_to_pages_cached ocr_env ''1704'' sample_world =
   (Inr [(1, ''Text of page_1.png''), (2, ''Cached text of page 2'')],
    sample_world\<lparr>ocr_calls := [''page_1.png''],
      ocr_cache := (ocr_cache sample_world)((''1704'', 1) \<mapsto> ''Text of page_1.png'')\<rparr>)"
  by (simp add: ocr_pdf_to_pages_cached_def ocr_env_def stub_env_def sample_world_def
      ocr_page_with_gpt_def strip_sample_text Let_def)

theorem cached_transcription_witness:
  "ocr_pdf_to_pages_cached ocr_env ''1704'' sample_world =
     (Inr [(1, ''Text of page_1.png''), (2, ''Cached text of page 2'')],
      sample_world\<lparr>ocr_calls := [''page_1.png''],
        ocr_cache := (ocr_cache sample_world)((''1704'', 1) \<mapsto> ''Text of page_1.png'')\<rparr>)
   \<and> (\<exists>pages'. ocr_pdf_to_pages_cached ocr_env ''1704''
         (sample_world\<lparr>ocr_calls := [''page_1.png''],
            ocr_cache := (ocr_cache sample_world)((''1704'', 1) \<mapsto> ''Text of page_1.png'')\<rparr>)
       = (Inr pages',
          sample_world\<lparr>ocr_calls := [''page_1.png''],
            ocr_cache := (ocr_cache sample_world)((''1704'', 1) \<mapsto> ''Text of page_1.png'')\<rparr>)
       \<and> map_of pages' 1 = Some ''Text of page_1.png''
       \<and> map_of pages' 2 = Some ''Cached text of page 2'')"
proof -
  have e: "export_pdf_pages_as_images ocr_env ''1704''
      = Inr [(2, ''page_2.png''), (1, ''page_1.png'')]"
    by (simp add: ocr_env_def)
  have d: "distinct (map fst [(2 :: int, ''page_2.png''), (1, ''page_1.png'')])"
    by simp
  have h: "ocr_pdf_to_pages_cached ocr_env ''1704'' sample_world =
     (Inr [(1, ''Text of page_1.png''), (2, ''Cached text of page 2'')],
      sample_world\<lparr>ocr_calls := [''page_1.png''],
        ocr_cache := (ocr_cache sample_world)((''1704'', 1) \<mapsto> ''Text of page_1.png'')\<rparr>)
     \<and> export_pdf_pages_as_images ocr_env ''1704''
      = Inr [(2, ''page_2.png''), (1, ''page_1.png'')]"
    using sample_first_run e by simp
  note t = cached_transcription [OF e d, where w = sample_world and env' = ocr_env,
    THEN conjunct2, THEN conjunct2, THEN conjunct2, THEN conjunct2, THEN conjunct2,
    THEN conjunct1, THEN mp, OF h]
  show ?thesis
    using sample_first_run t by auto
qed

end
